theory Spec2Isabelle
  imports Complex_Main "HOL-Library.Sublist"
begin

section \<open>Semantic video-transcript index (Youtube/server\_3.py)\<close>

text \<open>
  The module keeps two process-wide values, the FAISS index \<^verbatim>\<open>index\<close> and the list
  \<^verbatim>\<open>video_store\<close>, and offers tools that read or extend them. The tools are embedded
  as functions over an explicit state. A Python exception is represented by the text
  \<^verbatim>\<open>str(e)\<close>, the only thing the module ever reads from one; a computation that may
  raise has type \<open>exn + 'a\<close> with \<open>Inl\<close> for the raise. A tool reply that is either a
  dictionary with the key \<^verbatim>\<open>"error"\<close> or a payload has type \<open>string + 'a\<close> with
  \<open>Inl\<close> for the error dictionary. Vector components, which are 32-bit floats in the
  program, are idealised as rationals.
\<close>

subsection \<open>Data\<close>

type_synonym exn = string

type_synonym vec = "rat list"

text \<open>An entry of \<^verbatim>\<open>video_store\<close>. The key \<^verbatim>\<open>"url"\<close> is absent in entries written by
  \<^verbatim>\<open>index_video\<close>: an absent key is \<open>None\<close>, which is also what \<^verbatim>\<open>.get("url")\<close> reads.\<close>

record indexed_record =
  title :: string
  transcript :: string
  video_id :: "string option"
  url :: "string option"

record state =
  index :: "vec list"
  video_store :: "indexed_record list"

definition init :: state where
  "init = \<lparr>index = [], video_store = []\<rparr>"

text \<open>One caption track as the captioning library reports it; \<open>fetch\<close> is what
  \<^verbatim>\<open>transcript.fetch()\<close> gives: the texts of the segments, or a raise.\<close>

record track =
  language :: string
  language_code :: string
  is_generated :: bool
  is_translatable :: bool
  fetch :: "exn + string list"

text \<open>One item of a YouTube Data API response, reduced to the fields the tools read.\<close>

record item =
  videoId :: string
  snippet_title :: string

text \<open>The external collaborators: the sentence encoder (\<^verbatim>\<open>model.encode([text])\<close>), the
  two Data API requests, the captioning library's track listing, and the text of the
  exception that library raises when a video has no track in the languages asked for. The
  sources do not fix that text, so it is a parameter.\<close>

record env =
  encode :: "string \<Rightarrow> exn + vec"
  videos_list :: "string \<Rightarrow> exn + item list"
  channel_search :: "string \<Rightarrow> int \<Rightarrow> exn + item list"
  list_transcripts :: "string \<Rightarrow> exn + track list"
  no_transcript_found :: "string \<Rightarrow> string list \<Rightarrow> exn"

subsection \<open>The captioning library\<close>

text \<open>Modelled from the spec: the captioning collaborator (package
  \<^verbatim>\<open>youtube_transcript_api\<close>) is not part of the sources. A request for given languages
  is answered by the first reported track having one of them; the two \<^verbatim>\<open>find_*\<close> methods
  restrict this to manually created and to generated tracks. When no track qualifies the
  lookup raises the none-found condition, whose text \<open>nf\<close> is given by the caller.\<close>

definition find_transcript :: "exn \<Rightarrow> track list \<Rightarrow> string list \<Rightarrow> exn + track" where
  "find_transcript nf ts codes =
     (case find (\<lambda>t. language_code t \<in> set codes) ts of
        None \<Rightarrow> Inl nf | Some t \<Rightarrow> Inr t)"

definition find_manually_created_transcript ::
  "exn \<Rightarrow> track list \<Rightarrow> string list \<Rightarrow> exn + track" where
  "find_manually_created_transcript nf ts codes =
     (case find (\<lambda>t. \<not> is_generated t \<and> language_code t \<in> set codes) ts of
        None \<Rightarrow> Inl nf | Some t \<Rightarrow> Inr t)"

definition find_generated_transcript ::
  "exn \<Rightarrow> track list \<Rightarrow> string list \<Rightarrow> exn + track" where
  "find_generated_transcript nf ts codes =
     (case find (\<lambda>t. is_generated t \<and> language_code t \<in> set codes) ts of
        None \<Rightarrow> Inl nf | Some t \<Rightarrow> Inr t)"

definition get_transcript :: "env \<Rightarrow> string \<Rightarrow> string list \<Rightarrow> exn + string list" where
  "get_transcript e vid codes =
     (case list_transcripts e vid of
        Inl x \<Rightarrow> Inl x
      | Inr ts \<Rightarrow>
          (case find_transcript (no_transcript_found e vid codes) ts codes of
             Inl x \<Rightarrow> Inl x | Inr t \<Rightarrow> fetch t))"

text \<open>Modelled from the spec: \<^verbatim>\<open>TextFormatter.format_transcript\<close> of the same package
  gives the full text derived from a caption track: the segment texts, one per line.\<close>

fun format_transcript :: "string list \<Rightarrow> string" where
  "format_transcript [] = []"
| "format_transcript [x] = x"
| "format_transcript (x # y # ys) = x @ [CHR 0x0A] @ format_transcript (y # ys)"

subsection \<open>The vector index\<close>

text \<open>Modelled from the spec: \<^verbatim>\<open>faiss.IndexFlatL2\<close> is not part of the sources. \<open>add\<close>
  stores the vector verbatim under the next sequential id, starting at 0. \<open>search\<close> is an
  exact full linear scan under the squared Euclidean distance: ascending distance, ties
  broken by lower id, nothing for \<open>k \<le> 0\<close>, at most as many results as vectors stored.\<close>

definition l2sq :: "vec \<Rightarrow> vec \<Rightarrow> rat" where
  "l2sq u v = sum_list (map (\<lambda>(a, b). (a - b) * (a - b)) (zip u v))"

definition index_add :: "vec list \<Rightarrow> vec \<Rightarrow> nat \<times> vec list" where
  "index_add ix v = (length ix, ix @ [v])"

definition scan :: "vec list \<Rightarrow> vec \<Rightarrow> (int \<times> rat) list" where
  "scan ix q = zip (map int [0..<length ix]) (map (l2sq q) ix)"

definition index_search :: "vec list \<Rightarrow> vec \<Rightarrow> int \<Rightarrow> (int \<times> rat) list" where
  "index_search ix q k = (if k \<le> 0 then [] else take (nat k) (sort_key snd (scan ix q)))"

subsection \<open>Helpers for Python primitives\<close>

text \<open>\<^verbatim>\<open>xs[i]\<close> for a Python integer: a negative index counts from the end, an index out of
  range raises.\<close>

definition py_get :: "'a list \<Rightarrow> int \<Rightarrow> exn + 'a" where
  "py_get xs i =
     (if 0 \<le> i \<and> i < int (length xs) then Inr (xs ! nat i)
      else if i < 0 \<and> - int (length xs) \<le> i then Inr (xs ! nat (int (length xs) + i))
      else Inl ''list index out of range'')"

text \<open>\<^verbatim>\<open>round(x, 2)\<close>: to the nearest hundredth, a tie going to the even neighbour.\<close>

definition round_half_even :: "rat \<Rightarrow> int" where
  "round_half_even x =
     (let f = \<lfloor>x\<rfloor>; r = x - of_int f
      in if r < 1 / 2 then f else if 1 / 2 < r then f + 1 else if even f then f else f + 1)"

definition py_round2 :: "rat \<Rightarrow> rat" where
  "py_round2 x = of_int (round_half_even (x * 100)) / 100"

text \<open>\<^verbatim>\<open>try: body except Exception as e: handler(e)\<close>.\<close>

definition try_except :: "exn + 'a \<Rightarrow> (exn \<Rightarrow> exn + 'a) \<Rightarrow> exn + 'a" where
  "try_except body handler = (case body of Inl x \<Rightarrow> handler x | Inr r \<Rightarrow> Inr r)"

subsection \<open>Data API wrappers\<close>

record video_details =
  d_title :: string
  d_url :: string

definition watch_url :: "string \<Rightarrow> string" where
  "watch_url vid = ''https://www.youtube.com/watch?v='' @ vid"

definition get_video_details :: "env \<Rightarrow> string \<Rightarrow> string + video_details" where
  "get_video_details e vid =
     (case videos_list e vid of
        Inl x \<Rightarrow> Inl x
      | Inr [] \<Rightarrow> Inl ''Video not found''
      | Inr (it # _) \<Rightarrow> Inr \<lparr>d_title = snippet_title it, d_url = watch_url vid\<rparr>)"

record video =
  c_title :: string
  c_video_id :: string
  c_url :: string

definition get_latest_videos_from_channel :: "env \<Rightarrow> string \<Rightarrow> int \<Rightarrow> string + video list" where
  "get_latest_videos_from_channel e channel_id max_results =
     (case channel_search e channel_id max_results of
        Inl x \<Rightarrow> Inl x
      | Inr items \<Rightarrow>
          Inr (map (\<lambda>it. \<lparr>c_title = snippet_title it, c_video_id = videoId it,
                           c_url = watch_url (videoId it)\<rparr>) items))"

subsection \<open>Transcript tools\<close>

record transcript_info =
  ti_language :: string
  ti_language_code :: string
  ti_is_generated :: bool
  ti_is_translatable :: bool

text \<open>The reply dictionary of \<^verbatim>\<open>check_transcript_availability\<close>; a key that is absent
  is \<open>None\<close>.\<close>

record availability =
  a_video_id :: "string option"
  has_transcripts :: "bool option"
  available_transcripts :: "transcript_info list option"
  a_count :: "nat option"
  a_error :: "string option"

definition transcript_info_of :: "track \<Rightarrow> transcript_info" where
  "transcript_info_of t =
     \<lparr>ti_language = language t, ti_language_code = language_code t,
      ti_is_generated = is_generated t, ti_is_translatable = is_translatable t\<rparr>"

definition falsy :: "string option \<Rightarrow> bool" where
  "falsy v = (v = None \<or> v = Some [])"

definition check_transcript_availability ::
  "env \<Rightarrow> string option \<Rightarrow> state \<Rightarrow> (exn + availability) \<times> state" where
  "check_transcript_availability e vid s =
     (if falsy vid then
        (Inr \<lparr>a_video_id = None, has_transcripts = None, available_transcripts = None,
              a_count = None,
              a_error = Some ''You must provide a video_id to check transcript availability''\<rparr>, s)
      else
        (try_except
           (case list_transcripts e (the vid) of
              Inl x \<Rightarrow> Inl x
            | Inr transcript_list \<Rightarrow>
                (let available = map transcript_info_of transcript_list
                 in Inr \<lparr>a_video_id = vid, has_transcripts = Some (length available > 0),
                         available_transcripts = Some available,
                         a_count = Some (length available), a_error = None\<rparr>))
           (\<lambda>x. Inr \<lparr>a_video_id = vid, has_transcripts = Some False,
                      available_transcripts = None, a_count = None, a_error = Some x\<rparr>), s))"

record transcript_result =
  t_video_id :: string
  t_transcript :: string
  t_length :: nat
  t_segments :: nat

definition transcript_error :: "string \<Rightarrow> exn \<Rightarrow> string" where
  "transcript_error vid error_msg =
     (if sublist ''TranscriptsDisabled'' error_msg then
        ''Transcripts are disabled for video '' @ vid
      else if sublist ''NoTranscriptFound'' error_msg then
        ''No transcript found for video '' @ vid @ '' in requested languages''
      else if sublist ''VideoUnavailable'' error_msg then
        ''Video '' @ vid @ '' is unavailable''
      else ''Failed to get transcript for '' @ vid @ '': '' @ error_msg)"

definition find_and_fetch :: "exn + track \<Rightarrow> exn + string list" where
  "find_and_fetch found = (case found of Inl x \<Rightarrow> Inl x | Inr t \<Rightarrow> fetch t)"

text \<open>The three-step choice made when no languages are given. The inner \<open>Inl\<close> is the early
  return with an error dictionary; the outer \<open>Inl\<close> is a raise that reaches the handler.\<close>

definition default_transcript :: "env \<Rightarrow> string \<Rightarrow> exn + (string + string list)" where
  "default_transcript e vid =
     (case list_transcripts e vid of
        Inl x \<Rightarrow> Inl x
      | Inr transcript_list \<Rightarrow>
          (case find_and_fetch (find_manually_created_transcript
                  (no_transcript_found e vid [''en'']) transcript_list [''en'']) of
             Inr transcript_data \<Rightarrow> Inr (Inr transcript_data)
           | Inl _ \<Rightarrow>
               (case find_and_fetch (find_generated_transcript
                       (no_transcript_found e vid [''en'']) transcript_list [''en'']) of
                  Inr transcript_data \<Rightarrow> Inr (Inr transcript_data)
                | Inl _ \<Rightarrow>
                    (case transcript_list of
                       t # _ \<Rightarrow> (case fetch t of Inl x \<Rightarrow> Inl x | Inr d \<Rightarrow> Inr (Inr d))
                     | [] \<Rightarrow> Inr (Inl (''No transcripts available for video '' @ vid))))))"

definition get_video_transcript ::
  "env \<Rightarrow> string option \<Rightarrow> string list option \<Rightarrow> string + transcript_result" where
  "get_video_transcript e video languages =
     (if falsy video then Inl ''You must provide a video_id (e.g., 'rfscVS0vtbw')''
      else
        (let vid = the video;
             body = (case languages of
                       None \<Rightarrow> default_transcript e vid
                     | Some ls \<Rightarrow>
                         (case get_transcript e vid ls of
                            Inl x \<Rightarrow> Inl x | Inr d \<Rightarrow> Inr (Inr d)))
         in case body of
              Inl x \<Rightarrow> Inl (transcript_error vid x)
            | Inr (Inl err) \<Rightarrow> Inl err
            | Inr (Inr transcript_data) \<Rightarrow>
                (let transcript_text = format_transcript transcript_data
                 in Inr \<lparr>t_video_id = vid, t_transcript = transcript_text,
                         t_length = length transcript_text,
                         t_segments = length transcript_data\<rparr>)))"

subsection \<open>Index tools\<close>

record index_reply =
  i_status :: string
  i_title :: string

definition index_video ::
  "env \<Rightarrow> string \<Rightarrow> string \<Rightarrow> string option \<Rightarrow> state \<Rightarrow> (exn + index_reply) \<times> state" where
  "index_video e ttl text vid s =
     (case encode e text of
        Inl x \<Rightarrow> (Inl x, s)
      | Inr embedding \<Rightarrow>
          (Inr \<lparr>i_status = ''indexed'', i_title = ttl\<rparr>,
           s\<lparr>index := snd (index_add (index s) embedding),
             video_store := video_store s @
               [\<lparr>title = ttl, transcript = text, video_id = vid, url = None\<rparr>]\<rparr>))"

text \<open>One entry of the list \<^verbatim>\<open>semantic_search\<close> returns; the key \<^verbatim>\<open>"transcript"\<close> is
  present only on request.\<close>

record video_data =
  r_title :: string
  r_video_id :: "string option"
  r_url :: "string option"
  similarity_score :: rat
  r_transcript :: "string option"

definition similarity :: "rat \<Rightarrow> rat" where
  "similarity d = py_round2 ((1 / (1 + d)) * 100)"

text \<open>The dictionary built for one neighbour: the stored record \<open>r\<close> at distance \<open>d\<close>.\<close>

definition video_data_of :: "indexed_record \<Rightarrow> rat \<Rightarrow> bool \<Rightarrow> video_data" where
  "video_data_of r d full =
     \<lparr>r_title = title r, r_video_id = video_id r, r_url = url r,
      similarity_score = similarity d,
      r_transcript = (if full then Some (transcript r) else None)\<rparr>"

text \<open>The loop over the neighbours \<^verbatim>\<open>I[0]\<close> with their distances \<^verbatim>\<open>D[0]\<close>.\<close>

fun join :: "indexed_record list \<Rightarrow> bool \<Rightarrow> (int \<times> rat) list \<Rightarrow> exn + video_data list" where
  "join store full [] = Inr []"
| "join store full ((idx, d) # nbs) =
     (if idx < int (length store) then
        (case py_get store idx of
           Inl x \<Rightarrow> Inl x
         | Inr r \<Rightarrow>
             (case join store full nbs of
                Inl x \<Rightarrow> Inl x
              | Inr results \<Rightarrow>
                  Inr (video_data_of r d full # results)))
      else join store full nbs)"

datatype search_reply = NotIndexed string | Ranked "video_data list"

definition semantic_search ::
  "env \<Rightarrow> string \<Rightarrow> int \<Rightarrow> bool \<Rightarrow> state \<Rightarrow> (exn + search_reply) \<times> state" where
  "semantic_search e query top_k return_full_transcript s =
     (if length (video_store s) = 0 then
        (Inr (NotIndexed ''No videos indexed yet. Use index_video first.''), s)
      else
        (case encode e query of
           Inl x \<Rightarrow> (Inl x, s)
         | Inr query_embedding \<Rightarrow>
             (case join (video_store s) return_full_transcript
                     (index_search (index s) query_embedding
                        (min top_k (int (length (video_store s))))) of
                Inl x \<Rightarrow> (Inl x, s)
              | Inr results \<Rightarrow> (Inr (Ranked results), s))))"

record fetch_reply =
  f_status :: string
  f_video_id :: string
  f_title :: string
  transcript_length :: nat
  f_segments :: nat

definition fetch_and_index_transcript ::
  "env \<Rightarrow> string \<Rightarrow> string list option \<Rightarrow> state \<Rightarrow> (string + fetch_reply) \<times> state" where
  "fetch_and_index_transcript e vid languages s =
     (case get_video_details e vid of
        Inl err \<Rightarrow> (Inl err, s)
      | Inr details \<Rightarrow>
          (case get_video_transcript e (Some vid) languages of
             Inl err \<Rightarrow> (Inl err, s)
           | Inr transcript_result \<Rightarrow>
               (let transcript_text = t_transcript transcript_result
                in case encode e transcript_text of
                     Inl x \<Rightarrow>
                       (Inl (''Failed to fetch and index transcript for '' @ vid @ '': '' @ x), s)
                   | Inr embedding \<Rightarrow>
                       (Inr \<lparr>f_status = ''indexed'', f_video_id = vid,
                             f_title = d_title details,
                             transcript_length = length transcript_text,
                             f_segments = t_segments transcript_result\<rparr>,
                        s\<lparr>index := snd (index_add (index s) embedding),
                          video_store := video_store s @
                            [\<lparr>title = d_title details, transcript = transcript_text,
                              video_id = Some vid, url = Some (d_url details)\<rparr>]\<rparr>))))"

subsection \<open>Bulk ingestion\<close>

record detail =
  b_video_id :: string
  b_title :: string
  b_status :: string
  b_error :: "string option"
  b_transcript_length :: "nat option"

record report =
  status :: string
  indexed :: nat
  failed :: nat
  total_attempted :: nat
  details :: "detail list"

text \<open>The body of the loop over \<^verbatim>\<open>videos\<close>: the two counters and the list \<^verbatim>\<open>results\<close>
  are carried along with the state; a raise leaves the loop.\<close>

fun bulk_loop ::
  "env \<Rightarrow> video list \<Rightarrow> nat \<Rightarrow> nat \<Rightarrow> detail list \<Rightarrow> state
     \<Rightarrow> (exn + nat \<times> nat \<times> detail list) \<times> state" where
  "bulk_loop e [] indexed_count failed_count results s =
     (Inr (indexed_count, failed_count, results), s)"
| "bulk_loop e (v # vs) indexed_count failed_count results s =
     (case check_transcript_availability e (Some (c_video_id v)) s of
        (Inl x, s1) \<Rightarrow> (Inl x, s1)
      | (Inr avail, s1) \<Rightarrow>
          (if (case has_transcripts avail of None \<Rightarrow> False | Some b \<Rightarrow> b) then
             (case fetch_and_index_transcript e (c_video_id v) None s1 of
                (Inl err, s2) \<Rightarrow>
                  bulk_loop e vs indexed_count (failed_count + 1)
                    (results @ [\<lparr>b_video_id = c_video_id v, b_title = c_title v,
                                  b_status = ''failed'', b_error = Some err,
                                  b_transcript_length = None\<rparr>]) s2
              | (Inr result, s2) \<Rightarrow>
                  bulk_loop e vs (indexed_count + 1) failed_count
                    (results @ [\<lparr>b_video_id = c_video_id v, b_title = c_title v,
                                  b_status = ''indexed'', b_error = None,
                                  b_transcript_length = Some (transcript_length result)\<rparr>]) s2)
           else
             bulk_loop e vs indexed_count (failed_count + 1)
               (results @ [\<lparr>b_video_id = c_video_id v, b_title = c_title v,
                             b_status = ''no_transcript'',
                             b_error = Some ''No transcripts available'',
                             b_transcript_length = None\<rparr>]) s1))"

definition bulk_index_channel_videos ::
  "env \<Rightarrow> string \<Rightarrow> int \<Rightarrow> state \<Rightarrow> (string + report) \<times> state" where
  "bulk_index_channel_videos e channel_id max_videos s =
     (case get_latest_videos_from_channel e channel_id max_videos of
        Inl err \<Rightarrow> (Inl err, s)
      | Inr videos \<Rightarrow>
          (case bulk_loop e videos 0 0 [] s of
             (Inl x, s') \<Rightarrow> (Inl x, s')
           | (Inr (indexed_count, failed_count, results), s') \<Rightarrow>
               (Inr \<lparr>status = ''completed'', indexed = indexed_count, failed = failed_count,
                     total_attempted = length videos, details = results\<rparr>, s')))"

subsection \<open>Reachable states\<close>

datatype call =
    IndexVideo string string "string option"
  | SemanticSearch string int bool
  | FetchAndIndex string "string list option"
  | BulkIndex string int
  | CheckAvailability "string option"

fun exec :: "env \<Rightarrow> call \<Rightarrow> state \<Rightarrow> state" where
  "exec e (IndexVideo ttl text vid) s = snd (index_video e ttl text vid s)"
| "exec e (SemanticSearch query top_k full) s = snd (semantic_search e query top_k full s)"
| "exec e (FetchAndIndex vid languages) s = snd (fetch_and_index_transcript e vid languages s)"
| "exec e (BulkIndex channel_id max_videos) s = snd (bulk_index_channel_videos e channel_id max_videos s)"
| "exec e (CheckAvailability vid) s = snd (check_transcript_availability e vid s)"

definition run :: "env \<Rightarrow> call list \<Rightarrow> state" where
  "run e calls = foldl (\<lambda>s c. exec e c s) init calls"

subsection \<open>The alignment invariant\<close>

text \<open>The index and the store have the same length, and the vector at position \<open>i\<close> is
  the encoding of the transcript of record \<open>i\<close>.\<close>

definition aligned :: "env \<Rightarrow> state \<Rightarrow> bool" where
  "aligned e s \<longleftrightarrow>
     length (index s) = length (video_store s) \<and>
     (\<forall>i < length (video_store s). encode e (transcript (video_store s ! i)) = Inr (index s ! i))"


subsection \<open>A test double for the collaborators\<close>

text \<open>A deterministic stub encoder and three videos: \<open>A\<close> has a manual English track,
  \<open>B\<close> has no track, the only track of \<open>C\<close> cannot be fetched.\<close>

definition stub_encode :: "string \<Rightarrow> exn + vec" where
  "stub_encode text = Inr [of_nat (length text)]"

definition en_track :: "bool \<Rightarrow> exn + string list \<Rightarrow> track" where
  "en_track gen f = \<lparr>language = ''English'', language_code = ''en'', is_generated = gen,
                     is_translatable = True, fetch = f\<rparr>"

definition env0 :: env where
  "env0 = \<lparr>encode = stub_encode,
           videos_list = (\<lambda>vid. Inr [\<lparr>videoId = vid, snippet_title = ''Title '' @ vid\<rparr>]),
           channel_search = (\<lambda>c m. Inr [\<lparr>videoId = ''A'', snippet_title = ''Title A''\<rparr>,
                                         \<lparr>videoId = ''B'', snippet_title = ''Title B''\<rparr>,
                                         \<lparr>videoId = ''C'', snippet_title = ''Title C''\<rparr>]),
           list_transcripts = (\<lambda>vid.
              if vid = ''A'' then Inr [en_track False (Inr [''hello'', ''world''])]
              else if vid = ''B'' then Inr []
              else if vid = ''C'' then Inr [en_track True (Inl ''VideoUnavailable'')]
              else Inl ''TranscriptsDisabled''),
           no_transcript_found = (\<lambda>vid codes. ''NoTranscriptFound'')\<rparr>"


subsection \<open>The order of the neighbours\<close>

text \<open>\<open>nearer a b\<close>: neighbour \<open>a\<close> is at a smaller distance than \<open>b\<close>, or at the same
  distance with a lower id.\<close>

definition nearer :: "int \<times> rat \<Rightarrow> int \<times> rat \<Rightarrow> bool" where
  "nearer a b \<longleftrightarrow> snd a < snd b \<or> (snd a = snd b \<and> fst a < fst b)"

text \<open>Two states of the test double: after indexing one text, and after ingesting video
  \<open>A\<close> on top of it.\<close>

definition s1 :: state where
  "s1 = \<lparr>index = [[5]],
         video_store = [\<lparr>title = ''T'', transcript = ''hello'', video_id = None, url = None\<rparr>]\<rparr>"

definition s2 :: state where
  "s2 = \<lparr>index = [[5], [11]],
         video_store = [\<lparr>title = ''T'', transcript = ''hello'', video_id = None, url = None\<rparr>,
                        \<lparr>title = ''Title A'', transcript = ''hello'' @ [CHR 0x0A] @ ''world'',
                         video_id = Some ''A'', url = Some (watch_url ''A'')\<rparr>]\<rparr>"

subsection \<open>The outcome of one candidate, after the spec\<close>

text \<open>Section 4.6 of the spec, step 2, for one candidate: \<^verbatim>\<open>no_transcript\<close> when the
  availability check reports no transcripts, else \<^verbatim>\<open>failed\<close> with the error of the
  single-video ingestion, else \<^verbatim>\<open>indexed\<close> with the transcript length. The replies of
  both tools do not depend on the state, so they are read off at the empty one.\<close>

definition available :: "env \<Rightarrow> string \<Rightarrow> bool" where
  "available e vid =
     (case fst (check_transcript_availability e (Some vid) init) of
        Inl _ \<Rightarrow> False
      | Inr a \<Rightarrow> (case has_transcripts a of None \<Rightarrow> False | Some b \<Rightarrow> b))"

definition ingestion_result :: "env \<Rightarrow> video \<Rightarrow> detail" where
  "ingestion_result e v =
     (if available e (c_video_id v) then
        (case fst (fetch_and_index_transcript e (c_video_id v) None init) of
           Inl err \<Rightarrow> \<lparr>b_video_id = c_video_id v, b_title = c_title v, b_status = ''failed'',
                        b_error = Some err, b_transcript_length = None\<rparr>
         | Inr r \<Rightarrow> \<lparr>b_video_id = c_video_id v, b_title = c_title v, b_status = ''indexed'',
                      b_error = None, b_transcript_length = Some (transcript_length r)\<rparr>)
      else \<lparr>b_video_id = c_video_id v, b_title = c_title v, b_status = ''no_transcript'',
             b_error = Some ''No transcripts available'', b_transcript_length = None\<rparr>)"

definition count_status :: "string \<Rightarrow> detail list \<Rightarrow> nat" where
  "count_status st ds = length (filter (\<lambda>d. b_status d = st) ds)"

text \<open>The scenario of the spec's section 8: the state and the report after bulk ingestion of
  the candidates \<open>A\<close>, \<open>B\<close>, \<open>C\<close> of the test double.\<close>

definition sA :: state where
  "sA = \<lparr>index = [[11]],
         video_store = [\<lparr>title = ''Title A'', transcript = ''hello'' @ [CHR 0x0A] @ ''world'',
                         video_id = Some ''A'', url = Some (watch_url ''A'')\<rparr>]\<rparr>"

definition report_ABC :: report where
  "report_ABC =
     \<lparr>status = ''completed'', indexed = 1, failed = 2, total_attempted = 3,
      details =
        [\<lparr>b_video_id = ''A'', b_title = ''Title A'', b_status = ''indexed'', b_error = None,
          b_transcript_length = Some 11\<rparr>,
         \<lparr>b_video_id = ''B'', b_title = ''Title B'', b_status = ''no_transcript'',
          b_error = Some ''No transcripts available'', b_transcript_length = None\<rparr>,
         \<lparr>b_video_id = ''C'', b_title = ''Title C'', b_status = ''failed'',
          b_error = Some ''Video C is unavailable'', b_transcript_length = None\<rparr>]\<rparr>"

subsection \<open>Transcript replies\<close>

text \<open>The reply of \<^verbatim>\<open>get_video_transcript\<close> for fetched segments, and whether a
  looked-up track exists and can be fetched.\<close>

definition transcript_reply :: "string \<Rightarrow> string list \<Rightarrow> transcript_result" where
  "transcript_reply vid transcript_data =
     \<lparr>t_video_id = vid, t_transcript = format_transcript transcript_data,
      t_length = length (format_transcript transcript_data),
      t_segments = length transcript_data\<rparr>"

definition usable :: "track option \<Rightarrow> bool" where
  "usable found = (case found of None \<Rightarrow> False | Some t \<Rightarrow> (case fetch t of Inl _ \<Rightarrow> False | Inr _ \<Rightarrow> True))"

text \<open>A second test double: video \<open>D\<close> has a French manual track reported before a generated
  English one, video \<open>E\<close> has the French track only.\<close>

definition fr_track :: track where
  "fr_track = \<lparr>language = ''French'', language_code = ''fr'', is_generated = False,
               is_translatable = True, fetch = Inr [''bonjour'']\<rparr>"

definition env1 :: env where
  "env1 = env0\<lparr>list_transcripts := (\<lambda>vid.
      if vid = ''D'' then Inr [fr_track, en_track True (Inr [''hi''])]
      else if vid = ''E'' then Inr [fr_track]
      else list_transcripts env0 vid)\<rparr>"

text \<open>Further states of the test double: the same text indexed twice under two titles, and
  a second text indexed on a fresh index and after a first one.\<close>

definition sST :: state where
  "sST = \<lparr>index = [[11], [11]],
          video_store = [\<lparr>title = ''S'', transcript = ''hello world'', video_id = None, url = None\<rparr>,
                         \<lparr>title = ''T'', transcript = ''hello world'', video_id = None, url = None\<rparr>]\<rparr>"

definition sW :: state where
  "sW = \<lparr>index = [[5], [11]],
         video_store = [\<lparr>title = ''T'', transcript = ''hello'', video_id = None, url = None\<rparr>,
                        \<lparr>title = ''W'', transcript = ''hello world'', video_id = None, url = None\<rparr>]\<rparr>"

definition sT :: state where
  "sT = \<lparr>index = [[11]],
         video_store = [\<lparr>title = ''T'', transcript = ''hello world'', video_id = None, url = None\<rparr>]\<rparr>"


section \<open>Properties\<close>

subsection \<open>Read-only tools and the invariant\<close>


lemma check_returns: "\<exists>a. fst (check_transcript_availability e vid s) = Inr a"
  by (simp add: check_transcript_availability_def try_except_def split: sum.splits)


lemma aligned_init: "aligned e init"
  by (simp add: aligned_def init_def)

lemma aligned_append:
  "aligned e s \<Longrightarrow> encode e (transcript r) = Inr v \<Longrightarrow>
   aligned e (s\<lparr>index := snd (index_add (index s) v), video_store := video_store s @ [r]\<rparr>)"
  by (auto simp: aligned_def index_add_def nth_append)

lemma aligned_index_video: "aligned e s \<Longrightarrow> aligned e (snd (index_video e ttl text vid s))"
  by (auto simp: index_video_def intro!: aligned_append split: sum.splits)

lemma aligned_fetch:
  "aligned e s \<Longrightarrow> aligned e (snd (fetch_and_index_transcript e vid ls s))"
  by (auto simp: fetch_and_index_transcript_def Let_def intro!: aligned_append split: sum.splits)








subsection \<open>Single-video ingestion\<close>

lemma env0_details: "get_video_details env0 vid = Inr \<lparr>d_title = ''Title '' @ vid, d_url = watch_url vid\<rparr>"
  by (simp add: get_video_details_def env0_def)

lemma env0_transcript_C:
  "get_video_transcript env0 (Some ''C'') None = Inl ''Video C is unavailable''"
  by (simp add: env0_def get_video_transcript_def falsy_def default_transcript_def
      find_and_fetch_def find_manually_created_transcript_def find_generated_transcript_def
      en_track_def transcript_error_def sublist_code Let_def)

lemma env0_transcript_A:
  "get_video_transcript env0 (Some ''A'') None =
     Inr \<lparr>t_video_id = ''A'', t_transcript = ''hello'' @ [CHR 0x0A] @ ''world'',
          t_length = 11, t_segments = 2\<rparr>"
  by (simp add: env0_def get_video_transcript_def falsy_def default_transcript_def
      find_and_fetch_def find_manually_created_transcript_def en_track_def Let_def)

text \<open>C5. \<^verbatim>\<open>fetch_and_index_transcript\<close> stops at the first failing step (metadata,
  transcript, encoding) and returns its error; whenever it returns an error the index and
  the store are exactly as before the call. On success the reply has status
  \<^verbatim>\<open>indexed\<close>, the title from the metadata and the length of the transcript text.\<close>

theorem fetch_and_index_short_circuit:
  "(\<forall>err. get_video_details e vid = Inl err \<longrightarrow>
       fetch_and_index_transcript e vid ls s = (Inl err, s)) \<and>
   (\<forall>d err. get_video_details e vid = Inr d \<longrightarrow>
       get_video_transcript e (Some vid) ls = Inl err \<longrightarrow>
       fetch_and_index_transcript e vid ls s = (Inl err, s)) \<and>
   (\<forall>d t x. get_video_details e vid = Inr d \<longrightarrow>
       get_video_transcript e (Some vid) ls = Inr t \<longrightarrow>
       encode e (t_transcript t) = Inl x \<longrightarrow>
       fetch_and_index_transcript e vid ls s =
         (Inl (''Failed to fetch and index transcript for '' @ vid @ '': '' @ x), s)) \<and>
   (\<forall>err s'. fetch_and_index_transcript e vid ls s = (Inl err, s') \<longrightarrow> s' = s) \<and>
   (\<forall>r s'. fetch_and_index_transcript e vid ls s = (Inr r, s') \<longrightarrow>
       (\<exists>d t. get_video_details e vid = Inr d \<and>
              get_video_transcript e (Some vid) ls = Inr t \<and>
              f_status r = ''indexed'' \<and> f_title r = d_title d \<and>
              transcript_length r = length (t_transcript t)))"
  by (auto simp: fetch_and_index_transcript_def Let_def split: sum.splits)

theorem fetch_and_index_short_circuit_witness:
  "get_video_details env0 ''C'' = Inr \<lparr>d_title = ''Title C'', d_url = watch_url ''C''\<rparr> \<and>
   get_video_transcript env0 (Some ''C'') None = Inl ''Video C is unavailable'' \<and>
   fetch_and_index_transcript env0 ''C'' None init = (Inl ''Video C is unavailable'', init) \<and>
   fst (fetch_and_index_transcript env0 ''A'' None init) =
     Inr \<lparr>f_status = ''indexed'', f_video_id = ''A'', f_title = ''Title A'',
          transcript_length = 11, f_segments = 2\<rparr>"
proof -
  have c: "fetch_and_index_transcript env0 ''C'' None init = (Inl ''Video C is unavailable'', init)"
    using fetch_and_index_short_circuit [of env0 "''C''" None init]
      env0_details [of "''C''"] env0_transcript_C
    by simp
  have a: "fst (fetch_and_index_transcript env0 ''A'' None init) =
     Inr \<lparr>f_status = ''indexed'', f_video_id = ''A'', f_title = ''Title A'',
          transcript_length = 11, f_segments = 2\<rparr>"
    by (simp add: fetch_and_index_transcript_def env0_details env0_transcript_A Let_def)
       (simp add: env0_def stub_encode_def)
  show ?thesis using c a env0_details [of "''C''"] env0_transcript_C by simp
qed

subsection \<open>Search on an empty store\<close>

text \<open>C8. With no record stored, \<^verbatim>\<open>semantic_search\<close> returns the error dictionary
  \<^verbatim>\<open>"No videos indexed yet. Use index_video first."\<close>; it returns no ranked list, in
  particular not the empty one, and it does not raise.\<close>

theorem semantic_search_empty_store:
  "video_store s = [] \<Longrightarrow>
     fst (semantic_search e query top_k full s) =
       Inr (NotIndexed ''No videos indexed yet. Use index_video first.'') \<and>
     (\<forall>results. fst (semantic_search e query top_k full s) \<noteq> Inr (Ranked results)) \<and>
     (\<forall>x. fst (semantic_search e query top_k full s) \<noteq> Inl x)"
  by (simp add: semantic_search_def)

theorem semantic_search_empty_store_witness:
  "video_store init = [] \<and>
   fst (semantic_search env0 ''hello world'' 3 False init) =
     Inr (NotIndexed ''No videos indexed yet. Use index_video first.'') \<and>
   fst (semantic_search env0 ''hello world'' 3 False init) \<noteq> Inr (Ranked [])"
proof -
  have h: "video_store init = []" by (simp add: init_def)
  show ?thesis using h semantic_search_empty_store [OF h, of env0 "''hello world''" 3 False]
    by simp
qed

subsection \<open>Availability check\<close>

text \<open>C9. \<^verbatim>\<open>check_transcript_availability\<close> returns a reply for every input and never
  raises; when the track listing fails for a given id the reply has
  \<^verbatim>\<open>has_transcripts = False\<close> and carries the failure text; the index and the store
  are the same after the call as before.\<close>

theorem check_transcript_availability_safe:
  "(\<exists>a. fst (check_transcript_availability e vid s) = Inr a) \<and>
   snd (check_transcript_availability e vid s) = s \<and>
   (\<forall>x. \<not> falsy vid \<longrightarrow> list_transcripts e (the vid) = Inl x \<longrightarrow>
      fst (check_transcript_availability e vid s) =
        Inr \<lparr>a_video_id = vid, has_transcripts = Some False, available_transcripts = None,
             a_count = None, a_error = Some x\<rparr>)"
  by (simp add: check_transcript_availability_def try_except_def split: sum.splits)

theorem check_transcript_availability_safe_witness:
  "\<not> falsy (Some ''Z'') \<and> list_transcripts env0 (the (Some ''Z'')) = Inl ''TranscriptsDisabled'' \<and>
   check_transcript_availability env0 (Some ''Z'') init =
     (Inr \<lparr>a_video_id = Some ''Z'', has_transcripts = Some False, available_transcripts = None,
           a_count = None, a_error = Some ''TranscriptsDisabled''\<rparr>, init)"
proof -
  have h1: "\<not> falsy (Some ''Z'')" by (simp add: falsy_def)
  have h2: "list_transcripts env0 (the (Some ''Z'')) = Inl ''TranscriptsDisabled''"
    by (simp add: env0_def)
  show ?thesis
    using h1 h2 check_transcript_availability_safe [of env0 "Some ''Z''" init]
    by (metis prod.collapse)
qed

subsection \<open>The neighbours returned by the index\<close>

lemma scan_length: "length (scan ix q) = length ix"
  by (simp add: scan_def)

lemma scan_nth: "i < length ix \<Longrightarrow> scan ix q ! i = (int i, l2sq q (ix ! i))"
  by (simp add: scan_def)

lemma scan_mem:
  "p \<in> set (scan ix q) \<Longrightarrow> \<exists>i < length ix. p = (int i, l2sq q (ix ! i))"
  by (metis in_set_conv_nth scan_length scan_nth)

lemma scan_ids_increasing: "sorted_wrt (\<lambda>a b. fst a < fst b) (scan ix q)"
proof -
  have "sorted_wrt (<) (map fst (scan ix q))"
    by (simp add: scan_def sorted_wrt_map)
  then show ?thesis by (simp add: sorted_wrt_map)
qed

lemma insort_nearer:
  "sorted_wrt nearer ys \<Longrightarrow> \<forall>y \<in> set ys. fst x < fst y \<Longrightarrow>
   sorted_wrt nearer (insort_key snd x ys)"
  by (induction ys) (auto simp: nearer_def set_insort_key)

lemma sort_nearer:
  "sorted_wrt (\<lambda>a b. fst a < fst b) xs \<Longrightarrow> sorted_wrt nearer (sort_key snd xs)"
  by (induction xs) (auto intro!: insort_nearer)

lemma index_search_sorted: "sorted_wrt nearer (index_search ix q k)"
  by (simp add: index_search_def sorted_wrt_take sort_nearer scan_ids_increasing)

lemma index_search_length:
  "length (index_search ix q k) = (if k \<le> 0 then 0 else min (nat k) (length ix))"
  by (simp add: index_search_def scan_length min.commute)

lemma index_search_mem:
  "p \<in> set (index_search ix q k) \<Longrightarrow> \<exists>i < length ix. p = (int i, l2sq q (ix ! i))"
  by (auto simp: index_search_def dest!: in_set_takeD scan_mem split: if_splits)

lemma join_in_range:
  "\<forall>p \<in> set nbs. 0 \<le> fst p \<and> fst p < int (length store) \<Longrightarrow>
   join store full nbs =
     Inr (map (\<lambda>p. video_data_of (store ! nat (fst p)) (snd p) full) nbs)"
  by (induction nbs) (auto simp: py_get_def)

lemma semantic_search_ranked:
  assumes "length (index s) = length (video_store s)" and "video_store s \<noteq> []"
    and "encode e query = Inr qv"
  shows "semantic_search e query top_k full s =
     (Inr (Ranked (map (\<lambda>p. video_data_of (video_store s ! nat (fst p)) (snd p) full)
        (index_search (index s) qv (min top_k (int (length (video_store s))))))), s)"
proof -
  have "\<forall>p \<in> set (index_search (index s) qv (min top_k (int (length (video_store s))))).
          0 \<le> fst p \<and> fst p < int (length (video_store s))"
    using assms(1) by (auto dest!: index_search_mem)
  then show ?thesis using assms(2,3)
    by (simp add: semantic_search_def join_in_range)
qed

lemma l2sq_nonneg: "0 \<le> l2sq u v"
  by (auto simp: l2sq_def intro!: sum_list_nonneg)

lemma l2sq_self: "l2sq v v = 0"
  by (induction v) (simp_all add: l2sq_def)

subsection \<open>Similarity\<close>

lemma round_half_even_bounds: "\<lfloor>x\<rfloor> \<le> round_half_even x" "round_half_even x \<le> \<lfloor>x\<rfloor> + 1"
  by (simp_all add: round_half_even_def Let_def)

lemma round_half_even_mono: "x \<le> y \<Longrightarrow> round_half_even x \<le> round_half_even y"
proof (cases "\<lfloor>x\<rfloor> = \<lfloor>y\<rfloor>")
  case True
  assume "x \<le> y"
  with True show ?thesis by (auto simp: round_half_even_def Let_def)
next
  case False
  assume "x \<le> y"
  then have "\<lfloor>x\<rfloor> \<le> \<lfloor>y\<rfloor>" by (rule floor_mono)
  with False have "\<lfloor>x\<rfloor> + 1 \<le> \<lfloor>y\<rfloor>" by simp
  then show ?thesis
    using round_half_even_bounds(2) [of x] round_half_even_bounds(1) [of y] by linarith
qed

lemma py_round2_mono: "x \<le> y \<Longrightarrow> py_round2 x \<le> py_round2 y"
  by (simp add: py_round2_def divide_right_mono round_half_even_mono)

lemma similarity_antimono: "0 \<le> d1 \<Longrightarrow> d1 \<le> d2 \<Longrightarrow> similarity d2 \<le> similarity d1"
  unfolding similarity_def
  by (intro py_round2_mono mult_right_mono divide_left_mono) (auto intro: mult_pos_pos)

lemma similarity_zero: "similarity 0 = 100"
  by (simp add: similarity_def py_round2_def round_half_even_def)

lemma similarity_formula: "similarity d = py_round2 (100 / (1 + d))"
  by (simp add: similarity_def)

lemma round_half_even_close: "\<bar>of_int (round_half_even x) - x\<bar> \<le> 1 / 2"
proof -
  have "of_int \<lfloor>x\<rfloor> \<le> x" "x < of_int \<lfloor>x\<rfloor> + 1" by linarith+
  then show ?thesis by (auto simp: round_half_even_def Let_def abs_le_iff)
qed

lemma py_round2_close: "\<exists>n. py_round2 x = of_int n / 100 \<and> \<bar>py_round2 x - x\<bar> \<le> 1 / 200"
proof -
  have "\<bar>of_int (round_half_even (x * 100)) - x * 100\<bar> \<le> 1 / 2"
    by (rule round_half_even_close)
  then have "\<bar>of_int (round_half_even (x * 100)) / 100 - x\<bar> \<le> 1 / 200"
    by (simp add: abs_le_iff field_simps)
  then show ?thesis by (auto simp: py_round2_def)
qed

subsection \<open>The nearest neighbours\<close>

lemma index_search_first:
  assumes "0 < k" and "ix \<noteq> []"
  shows "\<exists>i rest. i < length ix \<and> index_search ix q k = (int i, l2sq q (ix ! i)) # rest \<and>
           (\<forall>j < length ix. l2sq q (ix ! i) \<le> l2sq q (ix ! j)) \<and>
           (\<forall>j < i. l2sq q (ix ! i) < l2sq q (ix ! j))"
proof -
  let ?xs = "sort_key snd (scan ix q)"
  have "length ?xs = length ix" by (simp add: scan_length)
  with assms(2) obtain h t where xs: "?xs = h # t" by (cases ?xs) auto
  have srt: "sorted_wrt nearer (h # t)"
    using sort_nearer [OF scan_ids_increasing, of ix q] xs by simp
  have "0 < nat k" using assms(1) by simp
  then obtain m where m: "nat k = Suc m" by (cases "nat k") auto
  have hd_eq: "index_search ix q k = h # take m t"
    using assms(1) xs m by (simp add: index_search_def)
  have "h \<in> set (scan ix q)" using xs by (metis list.set_intros(1) set_sort)
  then obtain i where i: "i < length ix" "h = (int i, l2sq q (ix ! i))"
    using scan_mem by blast
  have other: "nearer h (int j, l2sq q (ix ! j))" if j: "j < length ix" "j \<noteq> i" for j
  proof -
    have "scan ix q ! j \<in> set (scan ix q)" using j(1) by (simp add: scan_length)
    then have "(int j, l2sq q (ix ! j)) \<in> set (h # t)"
      using j(1) xs by (metis scan_nth set_sort)
    moreover have "(int j, l2sq q (ix ! j)) \<noteq> h" using i(2) j(2) by simp
    ultimately show ?thesis using srt by auto
  qed
  have le: "\<forall>j < length ix. l2sq q (ix ! i) \<le> l2sq q (ix ! j)"
  proof (intro allI impI)
    fix j assume "j < length ix"
    then show "l2sq q (ix ! i) \<le> l2sq q (ix ! j)"
      using other [of j] i(2) by (cases "j = i") (auto simp: nearer_def)
  qed
  have lt: "\<forall>j < i. l2sq q (ix ! i) < l2sq q (ix ! j)"
  proof (intro allI impI)
    fix j assume "j < i"
    then show "l2sq q (ix ! i) < l2sq q (ix ! j)"
      using other [of j] i by (auto simp: nearer_def)
  qed
  show ?thesis using i hd_eq le lt by blast
qed

lemma index_search_full:
  "int (length ix) \<le> k \<Longrightarrow> ix \<noteq> [] \<Longrightarrow> set (index_search ix q k) = set (scan ix q)"
proof -
  assume a: "int (length ix) \<le> k" and b: "ix \<noteq> []"
  then have "0 < k" by (cases ix) auto
  moreover have "length (sort_key snd (scan ix q)) \<le> nat k" using a by (simp add: scan_length)
  ultimately show ?thesis by (simp add: index_search_def)
qed

lemma scan_has: "i < length ix \<Longrightarrow> (int i, l2sq q (ix ! i)) \<in> set (scan ix q)"
  by (metis nth_mem scan_length scan_nth)

lemma index_search_nearest:
  assumes "y \<in> set (scan ix q)" and "y \<notin> set (index_search ix q k)"
    and "p \<in> set (index_search ix q k)"
  shows "nearer p y"
proof -
  let ?xs = "sort_key snd (scan ix q)"
  have k: "0 < k" using assms(3) by (auto simp: index_search_def split: if_splits)
  then have eq: "index_search ix q k = take (nat k) ?xs" by (simp add: index_search_def)
  have "sorted_wrt nearer (take (nat k) ?xs @ drop (nat k) ?xs)"
    using sort_nearer [OF scan_ids_increasing, of ix q] by simp
  then have all: "\<forall>a \<in> set (take (nat k) ?xs). \<forall>b \<in> set (drop (nat k) ?xs). nearer a b"
    by (simp only: sorted_wrt_append) simp
  have "set ?xs = set (take (nat k) ?xs) \<union> set (drop (nat k) ?xs)"
    by (metis append_take_drop_id set_append)
  moreover have "y \<in> set ?xs" using assms(1) by simp
  moreover have "y \<notin> set (take (nat k) ?xs)" using assms(2) eq by simp
  ultimately have "y \<in> set (drop (nat k) ?xs)" by blast
  moreover have "p \<in> set (take (nat k) ?xs)" using assms(3) eq by simp
  ultimately show ?thesis using all by blast
qed

lemma nearer_scores:
  "sorted_wrt nearer nbs \<Longrightarrow> \<forall>p \<in> set nbs. 0 \<le> snd p \<Longrightarrow>
   sorted_wrt (\<lambda>a b. similarity_score b \<le> similarity_score a)
     (map (\<lambda>p. video_data_of (f p) (snd p) full) nbs)"
proof -
  assume s: "sorted_wrt nearer nbs" and n: "\<forall>p \<in> set nbs. 0 \<le> snd p"
  have "sorted_wrt (\<lambda>a b. similarity (snd b) \<le> similarity (snd a)) nbs"
    using s
  proof (rule sorted_wrt_mono_rel [rotated])
    fix a b assume "a \<in> set nbs" "b \<in> set nbs" "nearer a b"
    then show "similarity (snd b) \<le> similarity (snd a)"
      using n by (intro similarity_antimono) (auto simp: nearer_def)
  qed
  then show ?thesis by (simp add: sorted_wrt_map video_data_of_def)
qed

lemma search_after_append:
  assumes "length (index s') = length (video_store s')" and "video_store s' = st @ [rec]"
    and "encode e query = Inr qv"
  shows "\<exists>results.
          semantic_search e query top_k full s' = (Inr (Ranked results), s') \<and>
          results = map (\<lambda>p. video_data_of (video_store s' ! nat (fst p)) (snd p) full)
             (index_search (index s') qv (min top_k (int (length (video_store s'))))) \<and>
          (\<forall>p \<in> set (index_search (index s') qv (min top_k (int (length (video_store s'))))).
             0 \<le> fst p \<and> fst p < int (length (video_store s'))) \<and>
          (\<forall>d. (int (length st), d) \<in>
                 set (index_search (index s') qv (min top_k (int (length (video_store s'))))) \<longrightarrow>
               video_data_of rec d full \<in> set results) \<and>
          (int (length st) < top_k \<longrightarrow>
             video_data_of rec (l2sq qv (index s' ! length st)) full \<in> set results)"
proof -
  let ?nbs = "index_search (index s') qv (min top_k (int (length (video_store s'))))"
  let ?results = "map (\<lambda>p. video_data_of (video_store s' ! nat (fst p)) (snd p) full) ?nbs"
  have ne: "video_store s' \<noteq> []" using assms(2) by simp
  have ss: "semantic_search e query top_k full s' = (Inr (Ranked ?results), s')"
    by (rule semantic_search_ranked [OF assms(1) ne assms(3)])
  have rng: "\<forall>p \<in> set ?nbs. 0 \<le> fst p \<and> fst p < int (length (video_store s'))"
    using assms(1) by (auto dest!: index_search_mem)
  have ent: "\<forall>d. (int (length st), d) \<in> set ?nbs \<longrightarrow> video_data_of rec d full \<in> set ?results"
  proof (intro allI impI)
    fix d assume "(int (length st), d) \<in> set ?nbs"
    then have "video_data_of (video_store s' ! nat (fst (int (length st), d)))
                 (snd (int (length st), d)) full \<in> set ?results"
      unfolding set_map by (rule imageI)
    then show "video_data_of rec d full \<in> set ?results" using assms(2) by simp
  qed
  have all: "int (length st) < top_k \<longrightarrow>
      video_data_of rec (l2sq qv (index s' ! length st)) full \<in> set ?results"
  proof
    assume big: "int (length st) < top_k"
    have len: "length (index s') = Suc (length st)" using assms(1,2) by simp
    then have ine: "index s' \<noteq> []" by auto
    have "int (length (index s')) \<le> min top_k (int (length (video_store s')))"
      using big len assms(1) by simp
    then have "set ?nbs = set (scan (index s') qv)" using ine by (rule index_search_full)
    moreover have "(int (length st), l2sq qv (index s' ! length st)) \<in> set (scan (index s') qv)"
      using len by (intro scan_has) simp
    ultimately show "video_data_of rec (l2sq qv (index s' ! length st)) full \<in> set ?results"
      using ent by blast
  qed
  show ?thesis using ss rng ent all by blast
qed

lemma join_nonneg:
  "\<forall>p \<in> set nbs. 0 \<le> fst p \<Longrightarrow>
   join store full nbs =
     Inr (map (\<lambda>p. video_data_of (store ! nat (fst p)) (snd p) full)
            (filter (\<lambda>p. fst p < int (length store)) nbs))"
  by (induction nbs) (auto simp: py_get_def)

subsection \<open>States of the test double\<close>

lemma aligned_lengths: "aligned e s \<Longrightarrow> length (index s) = length (video_store s)"
  by (simp add: aligned_def)

lemma run_s1: "run env0 [IndexVideo ''T'' ''hello'' None] = s1"
  by (simp add: run_def init_def index_video_def env0_def stub_encode_def index_add_def s1_def)

lemma aligned_s2: "aligned env0 s2"
  by (simp add: aligned_def s2_def env0_def stub_encode_def nth_Cons split: nat.split)

lemma search_s2:
  "index_search (index s2) [5] (min 3 (int (length (video_store s2)))) = [(0, 0), (1, 36)]"
  by (simp add: s2_def index_search_def scan_def l2sq_def upt_rec)

lemma aligned_s1: "aligned env0 s1"
  by (simp add: aligned_def s1_def env0_def stub_encode_def)

lemma join_labels_total:
  "store \<noteq> [] \<Longrightarrow> \<forall>p \<in> set nbs. - 1 \<le> fst p \<Longrightarrow> \<exists>rs. join store full nbs = Inr rs"
proof (induction nbs)
  case Nil
  then show ?case by simp
next
  case (Cons p nbs)
  obtain idx d where p: "p = (idx, d)" by (cases p)
  have "1 \<le> int (length store)" using Cons.prems(1) by (cases store) simp_all
  moreover have "- 1 \<le> idx" using Cons.prems(2) p by simp
  ultimately have "idx < int (length store) \<longrightarrow> (\<exists>r. py_get store idx = Inr r)"
    by (auto simp: py_get_def)
  moreover obtain rs where "join store full nbs = Inr rs" using Cons by auto
  ultimately show ?case using p by auto
qed

lemma fetch_A_s1:
  "fetch_and_index_transcript env0 ''A'' None s1 =
     (Inr \<lparr>f_status = ''indexed'', f_video_id = ''A'', f_title = ''Title A'',
           transcript_length = 11, f_segments = 2\<rparr>, s2)"
  by (simp add: fetch_and_index_transcript_def env0_details env0_transcript_A Let_def)
     (simp add: env0_def stub_encode_def index_add_def s1_def s2_def)

lemma enc_hello: "encode env0 ''hello'' = Inr [5]"
  by (simp add: env0_def stub_encode_def)

lemma enc_hello_world: "encode env0 ''hello world'' = Inr [11]"
  by (simp add: env0_def stub_encode_def)

lemma sim_36: "similarity 36 = 27 / 10"
proof -
  have fl: "\<lfloor>10000 / 37 :: rat\<rfloor> = 270" by (simp add: floor_eq_iff)
  show ?thesis by (simp add: similarity_def py_round2_def round_half_even_def Let_def fl)
qed

lemma search_s1: "index_search (index s1) [5] (min 3 (int (length (video_store s1)))) = [(0, 0)]"
  by (simp add: s1_def index_search_def scan_def l2sq_def)

lemma index_T_init:
  "index_video env0 ''T'' ''hello'' None init = (Inr \<lparr>i_status = ''indexed'', i_title = ''T''\<rparr>, s1)"
  by (simp add: index_video_def env0_def stub_encode_def index_add_def init_def s1_def)

lemma index_W_s1: "snd (index_video env0 ''W'' ''hello world'' None s1) = sW"
  by (simp add: index_video_def env0_def stub_encode_def index_add_def s1_def sW_def)

lemma index_T_fresh: "snd (index_video env0 ''T'' ''hello world'' None init) = sT"
  by (simp add: index_video_def env0_def stub_encode_def index_add_def init_def sT_def)

lemma search_sW:
  "semantic_search env0 ''hello world'' 3 False sW =
     (Inr (Ranked [\<lparr>r_title = ''W'', r_video_id = None, r_url = None,
                    similarity_score = 100, r_transcript = None\<rparr>,
                   \<lparr>r_title = ''T'', r_video_id = None, r_url = None,
                    similarity_score = 27 / 10, r_transcript = None\<rparr>]), sW)"
proof -
  have l: "length (index sW) = length (video_store sW)" by (simp add: sW_def)
  have ne: "video_store sW \<noteq> []" by (simp add: sW_def)
  have nb: "index_search (index sW) [11] (min 3 (int (length (video_store sW)))) = [(1, 0), (0, 36)]"
    by (simp add: sW_def index_search_def scan_def l2sq_def upt_rec)
  show ?thesis
    using semantic_search_ranked [OF l ne enc_hello_world, of 3 False]
    by (simp add: nb video_data_of_def similarity_zero sim_36) (simp add: sW_def)
qed

lemma search_sT:
  "semantic_search env0 ''hello world'' 3 False sT =
     (Inr (Ranked [\<lparr>r_title = ''T'', r_video_id = None, r_url = None,
                    similarity_score = 100, r_transcript = None\<rparr>]), sT)"
proof -
  have l: "length (index sT) = length (video_store sT)" by (simp add: sT_def)
  have ne: "video_store sT \<noteq> []" by (simp add: sT_def)
  have nb: "index_search (index sT) [11] (min 3 (int (length (video_store sT)))) = [(0, 0)]"
    by (simp add: sT_def index_search_def scan_def l2sq_def)
  show ?thesis
    using semantic_search_ranked [OF l ne enc_hello_world, of 3 False]
    by (simp add: nb video_data_of_def similarity_zero) (simp add: sT_def)
qed

lemma run_sST:
  "run env0 [IndexVideo ''S'' ''hello world'' None, IndexVideo ''T'' ''hello world'' None] = sST"
  by (simp add: run_def init_def index_video_def env0_def stub_encode_def index_add_def sST_def)

lemma search_sST:
  "semantic_search env0 ''hello world'' 3 False sST =
     (Inr (Ranked [\<lparr>r_title = ''S'', r_video_id = None, r_url = None,
                    similarity_score = 100, r_transcript = None\<rparr>,
                   \<lparr>r_title = ''T'', r_video_id = None, r_url = None,
                    similarity_score = 100, r_transcript = None\<rparr>]), sST)"
proof -
  have l: "length (index sST) = length (video_store sST)" by (simp add: sST_def)
  have ne: "video_store sST \<noteq> []" by (simp add: sST_def)
  have en: "encode env0 ''hello world'' = Inr [11]" by (simp add: env0_def stub_encode_def)
  have nb: "index_search (index sST) [11] (min 3 (int (length (video_store sST)))) = [(0, 0), (1, 0)]"
    by (simp add: sST_def index_search_def scan_def l2sq_def upt_rec)
  show ?thesis
    using semantic_search_ranked [OF l ne en, of 3 False]
    by (simp add: nb video_data_of_def similarity_zero) (simp add: sST_def)
qed

subsection \<open>Ranked search\<close>

text \<open>C2. On a non-empty aligned pair of \<open>n\<close> records and a query the encoder accepts,
  \<^verbatim>\<open>semantic_search\<close> with \<^verbatim>\<open>top_k = k\<close> returns a ranked list with one entry per
  neighbour the index returns for \<open>min k n\<close>, in the index's order: \<open>min k n\<close> entries
  for \<open>k \<ge> 0\<close> and none for \<open>k \<le> 0\<close>. The neighbours are stored vectors with their
  distance to the query, in non-decreasing distance with ties in increasing id; every
  stored vector left out is farther than, or as far with a higher id as, each one returned;
  the scores of the entries do not increase along the list.\<close>

theorem semantic_search_count_order:
  assumes "aligned e s" and "video_store s \<noteq> []" and "encode e query = Inr qv"
  shows "\<exists>nbs results.
           nbs = index_search (index s) qv (min top_k (int (length (video_store s)))) \<and>
           semantic_search e query top_k full s = (Inr (Ranked results), s) \<and>
           results = map (\<lambda>p. video_data_of (video_store s ! nat (fst p)) (snd p) full) nbs \<and>
           (0 \<le> top_k \<longrightarrow> int (length results) = min top_k (int (length (video_store s)))) \<and>
           (top_k \<le> 0 \<longrightarrow> results = []) \<and>
           sorted_wrt nearer nbs \<and>
           (\<forall>p \<in> set nbs. \<exists>i < length (index s). p = (int i, l2sq qv (index s ! i))) \<and>
           (\<forall>i < length (index s). (int i, l2sq qv (index s ! i)) \<notin> set nbs \<longrightarrow>
              (\<forall>p \<in> set nbs. nearer p (int i, l2sq qv (index s ! i)))) \<and>
           sorted_wrt (\<lambda>a b. similarity_score b \<le> similarity_score a) results"
proof -
  let ?nbs = "index_search (index s) qv (min top_k (int (length (video_store s))))"
  let ?results = "map (\<lambda>p. video_data_of (video_store s ! nat (fst p)) (snd p) full) ?nbs"
  have l: "length (index s) = length (video_store s)" using assms(1) by (rule aligned_lengths)
  have r: "semantic_search e query top_k full s = (Inr (Ranked ?results), s)"
    by (rule semantic_search_ranked [OF l assms(2,3)])
  have len: "0 \<le> top_k \<longrightarrow> int (length ?results) = min top_k (int (length (video_store s)))"
    by (auto simp: index_search_length l min_def)
  have emp: "top_k \<le> 0 \<longrightarrow> ?results = []"
    by (simp add: index_search_def)
  have srt: "sorted_wrt nearer ?nbs" by (rule index_search_sorted)
  have mem: "\<forall>p \<in> set ?nbs. \<exists>i < length (index s). p = (int i, l2sq qv (index s ! i))"
    using index_search_mem by blast
  have near: "\<forall>i < length (index s). (int i, l2sq qv (index s ! i)) \<notin> set ?nbs \<longrightarrow>
              (\<forall>p \<in> set ?nbs. nearer p (int i, l2sq qv (index s ! i)))"
    using index_search_nearest scan_has by blast
  have nn: "\<forall>p \<in> set ?nbs. 0 \<le> snd p" using mem l2sq_nonneg by auto
  have sc: "sorted_wrt (\<lambda>a b. similarity_score b \<le> similarity_score a) ?results"
    by (rule nearer_scores [OF srt nn])
  show ?thesis
    using r len emp srt mem near sc by blast
qed

theorem semantic_search_count_order_witness:
  "aligned env0 s2 \<and> video_store s2 \<noteq> [] \<and> encode env0 ''hello'' = Inr [5] \<and>
   semantic_search env0 ''hello'' 3 False s2 =
     (Inr (Ranked [\<lparr>r_title = ''T'', r_video_id = None, r_url = None,
                    similarity_score = 100, r_transcript = None\<rparr>,
                   \<lparr>r_title = ''Title A'', r_video_id = Some ''A'', r_url = Some (watch_url ''A''),
                    similarity_score = 27 / 10, r_transcript = None\<rparr>]), s2) \<and>
   semantic_search env0 ''hello'' 1 False s2 =
     (Inr (Ranked [\<lparr>r_title = ''T'', r_video_id = None, r_url = None,
                    similarity_score = 100, r_transcript = None\<rparr>]), s2)"
proof -
  have h2: "video_store s2 \<noteq> []" by (simp add: s2_def)
  have nb1: "index_search (index s2) [5] (min 1 (int (length (video_store s2)))) = [(0, 0)]"
    by (simp add: s2_def index_search_def scan_def l2sq_def upt_rec)
  have a: "semantic_search env0 ''hello'' 3 False s2 =
     (Inr (Ranked [\<lparr>r_title = ''T'', r_video_id = None, r_url = None,
                    similarity_score = 100, r_transcript = None\<rparr>,
                   \<lparr>r_title = ''Title A'', r_video_id = Some ''A'', r_url = Some (watch_url ''A''),
                    similarity_score = 27 / 10, r_transcript = None\<rparr>]), s2)"
    using semantic_search_count_order [OF aligned_s2 h2 enc_hello, of 3 False]
    by (simp add: search_s2 video_data_of_def similarity_zero sim_36) (simp add: s2_def)
  have b: "semantic_search env0 ''hello'' 1 False s2 =
     (Inr (Ranked [\<lparr>r_title = ''T'', r_video_id = None, r_url = None,
                    similarity_score = 100, r_transcript = None\<rparr>]), s2)"
    using semantic_search_count_order [OF aligned_s2 h2 enc_hello, of 1 False]
    by (simp add: nb1 video_data_of_def similarity_zero) (simp add: s2_def)
  show ?thesis using aligned_s2 h2 enc_hello a b by simp
qed

text \<open>C3 (as amended). With an encoder that maps the text to a vector \<open>v\<close>,
  \<^verbatim>\<open>index_video\<close> of the text followed by \<^verbatim>\<open>semantic_search\<close> of the same text
  (\<^verbatim>\<open>top_k\<close> positive, 3 by default) returns a non-empty ranked list whose first entry has
  similarity score 100: it is the entry of the earliest record whose vector lies at
  distance 0 from \<open>v\<close>. Its title is the title just indexed when no vector indexed earlier
  lies at distance 0 from \<open>v\<close>, in particular on a fresh index. The score of every entry
  is the distance \<open>d\<close> mapped to \<open>100 / (1 + d)\<close> rounded to the nearest hundredth; it is
  100 at distance 0 and does not increase when the distance grows.\<close>

theorem index_then_search_top:
  assumes "aligned e s" and "encode e text = Inr v" and "0 < top_k"
  shows "\<exists>m r rs s'. s' = snd (index_video e ttl text vid s) \<and>
           video_store s' = video_store s @
             [\<lparr>title = ttl, transcript = text, video_id = vid, url = None\<rparr>] \<and>
           semantic_search e text top_k full s' = (Inr (Ranked (r # rs)), s') \<and>
           m \<le> length (video_store s) \<and>
           r = video_data_of (video_store s' ! m) 0 full \<and>
           l2sq v (index s' ! m) = 0 \<and> (\<forall>j < m. l2sq v (index s' ! j) \<noteq> 0) \<and>
           similarity_score r = 100 \<and>
           ((\<forall>u \<in> set (index s). l2sq v u \<noteq> 0) \<longrightarrow> r_title r = ttl) \<and>
           (\<forall>rec d. similarity_score (video_data_of rec d full) = py_round2 (100 / (1 + d))) \<and>
           (\<forall>x. \<exists>n. py_round2 x = of_int n / 100 \<and> \<bar>py_round2 x - x\<bar> \<le> 1 / 200) \<and>
           similarity 0 = 100 \<and>
           (\<forall>d1 d2. 0 \<le> d1 \<and> d1 \<le> d2 \<longrightarrow> similarity d2 \<le> similarity d1)"
proof -
  let ?rec = "\<lparr>title = ttl, transcript = text, video_id = vid, url = None\<rparr>"
  let ?s = "snd (index_video e ttl text vid s)"
  let ?n = "length (video_store s)"
  have l: "length (index s) = ?n" using assms(1) by (rule aligned_lengths)
  have ix: "index ?s = index s @ [v]" and st: "video_store ?s = video_store s @ [?rec]"
    using assms(2) by (simp_all add: index_video_def index_add_def)
  have l': "length (index ?s) = length (video_store ?s)" using l ix st by simp
  have ne: "video_store ?s \<noteq> []" using st by simp
  have k: "0 < min top_k (int (length (video_store ?s)))" using assms(3) st by simp
  have ine: "index ?s \<noteq> []" using ix by simp
  obtain m rest where m: "m < length (index ?s)"
    and hr: "index_search (index ?s) v (min top_k (int (length (video_store ?s)))) =
               (int m, l2sq v (index ?s ! m)) # rest"
    and hmin: "\<forall>j < length (index ?s). l2sq v (index ?s ! m) \<le> l2sq v (index ?s ! j)"
    and hlt: "\<forall>j < m. l2sq v (index ?s ! m) < l2sq v (index ?s ! j)"
    using index_search_first [OF k ine, of v] by blast
  have mn: "m \<le> ?n" using m ix l by simp
  have "l2sq v (index ?s ! m) \<le> l2sq v (index ?s ! ?n)" using hmin ix l by simp
  then have "l2sq v (index ?s ! m) \<le> 0" using ix l by (simp add: nth_append l2sq_self)
  then have d0: "l2sq v (index ?s ! m) = 0" using l2sq_nonneg [of v "index ?s ! m"] by simp
  have before: "\<forall>j < m. l2sq v (index ?s ! j) \<noteq> 0" using hlt d0 by auto
  let ?r = "video_data_of (video_store ?s ! m) 0 full"
  have ss: "semantic_search e text top_k full ?s =
      (Inr (Ranked (?r # map (\<lambda>p. video_data_of (video_store ?s ! nat (fst p)) (snd p) full) rest)), ?s)"
    using semantic_search_ranked [OF l' ne assms(2), of top_k full] hr d0 by simp
  have sc: "similarity_score ?r = 100" by (simp add: video_data_of_def similarity_zero)
  have ttl: "(\<forall>u \<in> set (index s). l2sq v u \<noteq> 0) \<longrightarrow> r_title ?r = ttl"
  proof
    assume far: "\<forall>u \<in> set (index s). l2sq v u \<noteq> 0"
    have "m = ?n"
    proof (rule ccontr)
      assume "m \<noteq> ?n"
      with mn l have ml: "m < length (index s)" by simp
      then have "l2sq v (index s ! m) = 0" using d0 ix by (simp add: nth_append)
      with far ml show False by (metis nth_mem)
    qed
    then show "r_title ?r = ttl" using st by (simp add: video_data_of_def)
  qed
  have f: "\<forall>rec d. similarity_score (video_data_of rec d full) = py_round2 (100 / (1 + d))"
    by (simp add: video_data_of_def similarity_formula)
  have c: "\<forall>x. \<exists>n. py_round2 x = of_int n / 100 \<and> \<bar>py_round2 x - x\<bar> \<le> 1 / 200"
    using py_round2_close by blast
  have a: "\<forall>d1 d2. 0 \<le> d1 \<and> d1 \<le> d2 \<longrightarrow> similarity d2 \<le> similarity d1"
    using similarity_antimono by blast
  show ?thesis
    apply (rule exI [of _ m])
    apply (rule exI [of _ ?r])
    using st ss mn d0 before sc ttl f c a similarity_zero apply blast
    done
qed

theorem index_then_search_top_witness:
  "aligned env0 init \<and> encode env0 ''hello world'' = Inr [11] \<and>
   semantic_search env0 ''hello world'' 3 False
       (snd (index_video env0 ''T'' ''hello world'' None init)) =
     (Inr (Ranked [\<lparr>r_title = ''T'', r_video_id = None, r_url = None,
                    similarity_score = 100, r_transcript = None\<rparr>]), sT) \<and>
   aligned env0 s1 \<and> index s1 = [[5]] \<and> l2sq [11] [5] \<noteq> 0 \<and>
   semantic_search env0 ''hello world'' 3 False
       (snd (index_video env0 ''W'' ''hello world'' None s1)) =
     (Inr (Ranked [\<lparr>r_title = ''W'', r_video_id = None, r_url = None,
                    similarity_score = 100, r_transcript = None\<rparr>,
                   \<lparr>r_title = ''T'', r_video_id = None, r_url = None,
                    similarity_score = 27 / 10, r_transcript = None\<rparr>]), sW)"
proof -
  have h3: "(0::int) < 3" by simp
  have far: "\<forall>u \<in> set (index s1). l2sq [11] u \<noteq> 0" by (simp add: s1_def l2sq_def)
  have d: "l2sq [11] [5] \<noteq> 0" by (simp add: l2sq_def)
  have i: "index s1 = [[5]]" by (simp add: s1_def)
  from index_then_search_top [OF aligned_s1 enc_hello_world h3, of "''W''" None False] far
  obtain r rs where
    "semantic_search env0 ''hello world'' 3 False
       (snd (index_video env0 ''W'' ''hello world'' None s1)) =
     (Inr (Ranked (r # rs)), snd (index_video env0 ''W'' ''hello world'' None s1))"
    "similarity_score r = 100" "r_title r = ''W''"
    by blast
  then have w: "semantic_search env0 ''hello world'' 3 False
       (snd (index_video env0 ''W'' ''hello world'' None s1)) =
     (Inr (Ranked [\<lparr>r_title = ''W'', r_video_id = None, r_url = None,
                    similarity_score = 100, r_transcript = None\<rparr>,
                   \<lparr>r_title = ''T'', r_video_id = None, r_url = None,
                    similarity_score = 27 / 10, r_transcript = None\<rparr>]), sW)"
    by (simp add: index_W_s1 search_sW)
  have t: "semantic_search env0 ''hello world'' 3 False
       (snd (index_video env0 ''T'' ''hello world'' None init)) =
     (Inr (Ranked [\<lparr>r_title = ''T'', r_video_id = None, r_url = None,
                    similarity_score = 100, r_transcript = None\<rparr>]), sT)"
    by (simp add: index_T_fresh search_sT)
  show ?thesis using aligned_init aligned_s1 enc_hello_world d i w t by simp
qed

text \<open>C3 as stated fails on the title when the same text was indexed before: after
  \<^verbatim>\<open>index_video\<close> of one text under the title \<open>S\<close> and then under the title \<open>T\<close>, the search
  for that text ranks the entry titled \<open>S\<close> first; both entries have score 100 and the tie
  goes to the lower id.\<close>

theorem index_then_search_title_counterexample:
  "fst (semantic_search env0 ''hello world'' 3 False
       (run env0 [IndexVideo ''S'' ''hello world'' None, IndexVideo ''T'' ''hello world'' None])) =
     Inr (Ranked [\<lparr>r_title = ''S'', r_video_id = None, r_url = None,
                   similarity_score = 100, r_transcript = None\<rparr>,
                  \<lparr>r_title = ''T'', r_video_id = None, r_url = None,
                   similarity_score = 100, r_transcript = None\<rparr>]) \<and>
   ''S'' \<noteq> ''T''"
  by (simp add: run_sST search_sST)

text \<open>C10. The loop of \<^verbatim>\<open>semantic_search\<close> reads the store only for a neighbour whose
  index is below the length of the store: on non-negative labels it yields exactly the
  entries of the neighbours in range, in order, and on a non-empty store it cannot fail for
  the labels an index returns (\<open>-1\<close> or above). After an append to an aligned pair the reply
  of a search is the list of the entries of the neighbours the index returns, all within the
  store; whenever the record just appended is among them, and always when \<^verbatim>\<open>top_k\<close> exceeds
  the number of earlier records, the reply contains its entry, with \<^verbatim>\<open>url\<close> \<open>None\<close> when it
  came from \<^verbatim>\<open>index_video\<close> and the video's watch URL when it came from
  \<^verbatim>\<open>fetch_and_index_transcript\<close>.\<close>

theorem search_join_total:
  assumes "aligned e s" and "encode e query = Inr qv"
  shows
   "(\<forall>store nbs. (\<forall>p \<in> set nbs. 0 \<le> fst p) \<longrightarrow>
        join store full nbs =
          Inr (map (\<lambda>p. video_data_of (store ! nat (fst p)) (snd p) full)
                 (filter (\<lambda>p. fst p < int (length store)) nbs))) \<and>
    (\<forall>store nbs. store \<noteq> [] \<longrightarrow> (\<forall>p \<in> set nbs. - 1 \<le> fst p) \<longrightarrow>
        (\<exists>rs. join store full nbs = Inr rs)) \<and>
    (\<forall>r s'. index_video e ttl tscript vid s = (Inr r, s') \<longrightarrow>
       (\<exists>results.
          semantic_search e query top_k full s' = (Inr (Ranked results), s') \<and>
          results = map (\<lambda>p. video_data_of (video_store s' ! nat (fst p)) (snd p) full)
             (index_search (index s') qv (min top_k (int (length (video_store s'))))) \<and>
          (\<forall>p \<in> set (index_search (index s') qv (min top_k (int (length (video_store s'))))).
             0 \<le> fst p \<and> fst p < int (length (video_store s'))) \<and>
          (\<forall>d. (int (length (video_store s)), d) \<in>
                 set (index_search (index s') qv (min top_k (int (length (video_store s'))))) \<longrightarrow>
               \<lparr>r_title = ttl, r_video_id = vid, r_url = None, similarity_score = similarity d,
                r_transcript = (if full then Some tscript else None)\<rparr> \<in> set results) \<and>
          (int (length (video_store s)) < top_k \<longrightarrow>
             (\<exists>d. \<lparr>r_title = ttl, r_video_id = vid, r_url = None, similarity_score = similarity d,
                   r_transcript = (if full then Some tscript else None)\<rparr> \<in> set results)))) \<and>
    (\<forall>r s'. fetch_and_index_transcript e fvid ls s = (Inr r, s') \<longrightarrow>
       (\<exists>results tx.
          semantic_search e query top_k full s' = (Inr (Ranked results), s') \<and>
          results = map (\<lambda>p. video_data_of (video_store s' ! nat (fst p)) (snd p) full)
             (index_search (index s') qv (min top_k (int (length (video_store s'))))) \<and>
          (\<forall>p \<in> set (index_search (index s') qv (min top_k (int (length (video_store s'))))).
             0 \<le> fst p \<and> fst p < int (length (video_store s'))) \<and>
          (\<forall>d. (int (length (video_store s)), d) \<in>
                 set (index_search (index s') qv (min top_k (int (length (video_store s'))))) \<longrightarrow>
               \<lparr>r_title = f_title r, r_video_id = Some fvid, r_url = Some (watch_url fvid),
                similarity_score = similarity d,
                r_transcript = (if full then Some tx else None)\<rparr> \<in> set results) \<and>
          (int (length (video_store s)) < top_k \<longrightarrow>
             (\<exists>d. \<lparr>r_title = f_title r, r_video_id = Some fvid, r_url = Some (watch_url fvid),
                   similarity_score = similarity d,
                   r_transcript = (if full then Some tx else None)\<rparr> \<in> set results))))"
proof (intro conjI allI impI)
  fix store :: "indexed_record list" and nbs :: "(int \<times> rat) list"
  assume "\<forall>p \<in> set nbs. 0 \<le> fst p"
  then show "join store full nbs =
      Inr (map (\<lambda>p. video_data_of (store ! nat (fst p)) (snd p) full)
             (filter (\<lambda>p. fst p < int (length store)) nbs))"
    by (rule join_nonneg)
next
  fix store :: "indexed_record list" and nbs :: "(int \<times> rat) list"
  assume "store \<noteq> []" "\<forall>p \<in> set nbs. - 1 \<le> fst p"
  then show "\<exists>rs. join store full nbs = Inr rs" by (rule join_labels_total)
next
  fix r s' assume iv: "index_video e ttl tscript vid s = (Inr r, s')"
  let ?rec = "\<lparr>title = ttl, transcript = tscript, video_id = vid, url = None\<rparr>"
  have s': "s' = snd (index_video e ttl tscript vid s)" using iv by simp
  have al: "length (index s') = length (video_store s')"
    unfolding s' by (rule aligned_lengths [OF aligned_index_video [OF assms(1)]])
  have st: "video_store s' = video_store s @ [?rec]"
    using iv by (auto simp: index_video_def split: sum.splits)
  have vd: "video_data_of ?rec d full =
      \<lparr>r_title = ttl, r_video_id = vid, r_url = None, similarity_score = similarity d,
       r_transcript = (if full then Some tscript else None)\<rparr>" for d
    by (simp add: video_data_of_def)
  show "\<exists>results.
          semantic_search e query top_k full s' = (Inr (Ranked results), s') \<and>
          results = map (\<lambda>p. video_data_of (video_store s' ! nat (fst p)) (snd p) full)
             (index_search (index s') qv (min top_k (int (length (video_store s'))))) \<and>
          (\<forall>p \<in> set (index_search (index s') qv (min top_k (int (length (video_store s'))))).
             0 \<le> fst p \<and> fst p < int (length (video_store s'))) \<and>
          (\<forall>d. (int (length (video_store s)), d) \<in>
                 set (index_search (index s') qv (min top_k (int (length (video_store s'))))) \<longrightarrow>
               \<lparr>r_title = ttl, r_video_id = vid, r_url = None, similarity_score = similarity d,
                r_transcript = (if full then Some tscript else None)\<rparr> \<in> set results) \<and>
          (int (length (video_store s)) < top_k \<longrightarrow>
             (\<exists>d. \<lparr>r_title = ttl, r_video_id = vid, r_url = None, similarity_score = similarity d,
                   r_transcript = (if full then Some tscript else None)\<rparr> \<in> set results))"
    using search_after_append [OF al st assms(2), of top_k full]
    unfolding vd by blast
next
  fix r s' assume fi: "fetch_and_index_transcript e fvid ls s = (Inr r, s')"
  have s': "s' = snd (fetch_and_index_transcript e fvid ls s)" using fi by simp
  have al: "length (index s') = length (video_store s')"
    unfolding s' by (rule aligned_lengths [OF aligned_fetch [OF assms(1)]])
  obtain tx where st: "video_store s' = video_store s @
      [\<lparr>title = f_title r, transcript = tx, video_id = Some fvid, url = Some (watch_url fvid)\<rparr>]"
    using fi by (auto simp: fetch_and_index_transcript_def get_video_details_def Let_def
        split: sum.splits list.splits)
  have vd: "video_data_of
       \<lparr>title = f_title r, transcript = tx, video_id = Some fvid, url = Some (watch_url fvid)\<rparr>
       d full =
      \<lparr>r_title = f_title r, r_video_id = Some fvid, r_url = Some (watch_url fvid),
       similarity_score = similarity d, r_transcript = (if full then Some tx else None)\<rparr>" for d
    by (simp add: video_data_of_def)
  show "\<exists>results tx.
          semantic_search e query top_k full s' = (Inr (Ranked results), s') \<and>
          results = map (\<lambda>p. video_data_of (video_store s' ! nat (fst p)) (snd p) full)
             (index_search (index s') qv (min top_k (int (length (video_store s'))))) \<and>
          (\<forall>p \<in> set (index_search (index s') qv (min top_k (int (length (video_store s'))))).
             0 \<le> fst p \<and> fst p < int (length (video_store s'))) \<and>
          (\<forall>d. (int (length (video_store s)), d) \<in>
                 set (index_search (index s') qv (min top_k (int (length (video_store s'))))) \<longrightarrow>
               \<lparr>r_title = f_title r, r_video_id = Some fvid, r_url = Some (watch_url fvid),
                similarity_score = similarity d,
                r_transcript = (if full then Some tx else None)\<rparr> \<in> set results) \<and>
          (int (length (video_store s)) < top_k \<longrightarrow>
             (\<exists>d. \<lparr>r_title = f_title r, r_video_id = Some fvid, r_url = Some (watch_url fvid),
                   similarity_score = similarity d,
                   r_transcript = (if full then Some tx else None)\<rparr> \<in> set results))"
    using search_after_append [OF al st assms(2), of top_k full]
    unfolding vd by blast
qed

theorem search_join_total_witness:
  "aligned env0 init \<and> aligned env0 s1 \<and> encode env0 ''hello'' = Inr [5] \<and>
   index_video env0 ''T'' ''hello'' None init =
     (Inr \<lparr>i_status = ''indexed'', i_title = ''T''\<rparr>, s1) \<and>
   semantic_search env0 ''hello'' 3 False s1 =
     (Inr (Ranked [\<lparr>r_title = ''T'', r_video_id = None, r_url = None,
                    similarity_score = 100, r_transcript = None\<rparr>]), s1) \<and>
   fetch_and_index_transcript env0 ''A'' None s1 =
     (Inr \<lparr>f_status = ''indexed'', f_video_id = ''A'', f_title = ''Title A'',
           transcript_length = 11, f_segments = 2\<rparr>, s2) \<and>
   semantic_search env0 ''hello'' 3 False s2 =
     (Inr (Ranked [\<lparr>r_title = ''T'', r_video_id = None, r_url = None,
                    similarity_score = 100, r_transcript = None\<rparr>,
                   \<lparr>r_title = ''Title A'', r_video_id = Some ''A'', r_url = Some (watch_url ''A''),
                    similarity_score = 27 / 10, r_transcript = None\<rparr>]), s2)"
proof -
  from search_join_total [OF aligned_init enc_hello, where ttl = "''T''" and tscript = "''hello''"
      and vid = None and top_k = 3 and full = False] index_T_init
  obtain r1 where
    "semantic_search env0 ''hello'' 3 False s1 = (Inr (Ranked r1), s1)"
    "r1 = map (\<lambda>p. video_data_of (video_store s1 ! nat (fst p)) (snd p) False)
       (index_search (index s1) [5] (min 3 (int (length (video_store s1)))))"
    by blast
  then have a: "semantic_search env0 ''hello'' 3 False s1 =
     (Inr (Ranked [\<lparr>r_title = ''T'', r_video_id = None, r_url = None,
                    similarity_score = 100, r_transcript = None\<rparr>]), s1)"
    by (simp add: search_s1 video_data_of_def similarity_zero) (simp add: s1_def)
  from search_join_total [OF aligned_s1 enc_hello, where fvid = "''A''" and ls = None
      and top_k = 3 and full = False] fetch_A_s1
  obtain r2 where
    "semantic_search env0 ''hello'' 3 False s2 = (Inr (Ranked r2), s2)"
    "r2 = map (\<lambda>p. video_data_of (video_store s2 ! nat (fst p)) (snd p) False)
       (index_search (index s2) [5] (min 3 (int (length (video_store s2)))))"
    by blast
  then have b: "semantic_search env0 ''hello'' 3 False s2 =
     (Inr (Ranked [\<lparr>r_title = ''T'', r_video_id = None, r_url = None,
                    similarity_score = 100, r_transcript = None\<rparr>,
                   \<lparr>r_title = ''Title A'', r_video_id = Some ''A'', r_url = Some (watch_url ''A''),
                    similarity_score = 27 / 10, r_transcript = None\<rparr>]), s2)"
    by (simp add: search_s2 video_data_of_def similarity_zero sim_36) (simp add: s2_def)
  show ?thesis using aligned_init aligned_s1 enc_hello index_T_init fetch_A_s1 a b by simp
qed

subsection \<open>Bulk ingestion\<close>

lemma check_indep:
  "check_transcript_availability e vid s = (fst (check_transcript_availability e vid init), s)"
  by (simp add: check_transcript_availability_def)

lemma fetch_indep:
  "fst (fetch_and_index_transcript e vid ls s) = fst (fetch_and_index_transcript e vid ls init)"
  by (simp add: fetch_and_index_transcript_def Let_def split: sum.splits)

lemma count_status_append:
  "count_status st (xs @ ys) = count_status st xs + count_status st ys"
  by (simp add: count_status_def)

lemma count_status_Cons:
  "count_status st (d # ds) = (if b_status d = st then 1 else 0) + count_status st ds"
  by (simp add: count_status_def)

lemma ingestion_result_counts:
  "count_status ''indexed'' [ingestion_result e v] + count_status ''failed'' [ingestion_result e v]
     + count_status ''no_transcript'' [ingestion_result e v] = 1"
  by (simp add: count_status_def ingestion_result_def split: sum.splits)

lemma bulk_loop_result:
  "\<exists>s'. bulk_loop e vs ic fc rs s =
     (Inr (ic + count_status ''indexed'' (map (ingestion_result e) vs),
           fc + count_status ''failed'' (map (ingestion_result e) vs)
              + count_status ''no_transcript'' (map (ingestion_result e) vs),
           rs @ map (ingestion_result e) vs), s')"
proof (induction vs arbitrary: ic fc rs s)
  case Nil
  then show ?case by (simp add: count_status_def)
next
  case (Cons v vs)
  obtain a where a: "fst (check_transcript_availability e (Some (c_video_id v)) init) = Inr a"
    using check_returns by blast
  then have chk: "check_transcript_availability e (Some (c_video_id v)) s = (Inr a, s)"
    using check_indep [of e "Some (c_video_id v)" s] by simp
  have av: "available e (c_video_id v) = (case has_transcripts a of None \<Rightarrow> False | Some b \<Rightarrow> b)"
    using a by (simp add: available_def)
  obtain r s2 where f: "fetch_and_index_transcript e (c_video_id v) None s = (r, s2)"
    by (cases "fetch_and_index_transcript e (c_video_id v) None s")
  then have r: "fst (fetch_and_index_transcript e (c_video_id v) None init) = r"
    using fetch_indep [of e "c_video_id v" None s] by simp
  show ?case
  proof (cases "available e (c_video_id v)")
    case False
    have d: "ingestion_result e v =
        \<lparr>b_video_id = c_video_id v, b_title = c_title v, b_status = ''no_transcript'',
         b_error = Some ''No transcripts available'', b_transcript_length = None\<rparr>"
      using False by (simp add: ingestion_result_def)
    have step: "bulk_loop e (v # vs) ic fc rs s =
        bulk_loop e vs ic (fc + 1) (rs @ [ingestion_result e v]) s"
      using chk av False by (simp add: d)
    show ?thesis
      using Cons.IH [of ic "fc + 1" "rs @ [ingestion_result e v]" s]
      unfolding step by (simp add: count_status_Cons) (simp add: d)
  next
    case True
    show ?thesis
    proof (cases r)
      case (Inl err)
      have d: "ingestion_result e v =
          \<lparr>b_video_id = c_video_id v, b_title = c_title v, b_status = ''failed'',
           b_error = Some err, b_transcript_length = None\<rparr>"
        using True r Inl by (simp add: ingestion_result_def)
      have step: "bulk_loop e (v # vs) ic fc rs s =
          bulk_loop e vs ic (fc + 1) (rs @ [ingestion_result e v]) s2"
        using chk av True f Inl by (simp add: d)
      show ?thesis
        using Cons.IH [of ic "fc + 1" "rs @ [ingestion_result e v]" s2]
        unfolding step by (simp add: count_status_Cons) (simp add: d)
    next
      case (Inr res)
      have d: "ingestion_result e v =
          \<lparr>b_video_id = c_video_id v, b_title = c_title v, b_status = ''indexed'',
           b_error = None, b_transcript_length = Some (transcript_length res)\<rparr>"
        using True r Inr by (simp add: ingestion_result_def)
      have step: "bulk_loop e (v # vs) ic fc rs s =
          bulk_loop e vs (ic + 1) fc (rs @ [ingestion_result e v]) s2"
        using chk av True f Inr by (simp add: d)
      show ?thesis
        using Cons.IH [of "ic + 1" fc "rs @ [ingestion_result e v]" s2]
        unfolding step by (simp add: count_status_Cons) (simp add: d)
    qed
  qed
qed

lemma count_status_total:
  "count_status ''indexed'' (map (ingestion_result e) vs)
     + count_status ''failed'' (map (ingestion_result e) vs)
     + count_status ''no_transcript'' (map (ingestion_result e) vs) = length vs"
proof (induction vs)
  case Nil
  then show ?case by (simp add: count_status_def)
next
  case (Cons v vs)
  have "count_status st (map (ingestion_result e) (v # vs)) =
      count_status st [ingestion_result e v] + count_status st (map (ingestion_result e) vs)" for st
    by (simp add: count_status_def)
  then show ?case using Cons ingestion_result_counts [of e v] by simp
qed

lemma ingestion_result_status:
  "b_status (ingestion_result e v) \<in> {''indexed'', ''failed'', ''no_transcript''}"
  by (simp add: ingestion_result_def split: sum.splits)

lemma ingestion_result_id: "b_video_id (ingestion_result e v) = c_video_id v"
  by (simp add: ingestion_result_def split: sum.splits)

lemma env0_check:
  "check_transcript_availability env0 (Some ''A'') s =
     (Inr \<lparr>a_video_id = Some ''A'', has_transcripts = Some True,
           available_transcripts = Some [transcript_info_of (en_track False (Inr [''hello'', ''world'']))],
           a_count = Some 1, a_error = None\<rparr>, s)"
  "check_transcript_availability env0 (Some ''B'') s =
     (Inr \<lparr>a_video_id = Some ''B'', has_transcripts = Some False,
           available_transcripts = Some [], a_count = Some 0, a_error = None\<rparr>, s)"
  "check_transcript_availability env0 (Some ''C'') s =
     (Inr \<lparr>a_video_id = Some ''C'', has_transcripts = Some True,
           available_transcripts = Some [transcript_info_of (en_track True (Inl ''VideoUnavailable''))],
           a_count = Some 1, a_error = None\<rparr>, s)"
  by (simp_all add: check_transcript_availability_def falsy_def try_except_def env0_def)

lemma env0_fetch_A:
  "fetch_and_index_transcript env0 ''A'' None init =
     (Inr \<lparr>f_status = ''indexed'', f_video_id = ''A'', f_title = ''Title A'',
           transcript_length = 11, f_segments = 2\<rparr>, sA)"
  by (simp add: fetch_and_index_transcript_def env0_details env0_transcript_A Let_def)
     (simp add: env0_def stub_encode_def index_add_def init_def sA_def)

lemma env0_fetch_C:
  "fetch_and_index_transcript env0 ''C'' None s = (Inl ''Video C is unavailable'', s)"
  by (simp add: fetch_and_index_transcript_def env0_details env0_transcript_C)

lemma env0_latest:
  "get_latest_videos_from_channel env0 ''UC'' 10 =
     Inr [\<lparr>c_title = ''Title A'', c_video_id = ''A'', c_url = watch_url ''A''\<rparr>,
          \<lparr>c_title = ''Title B'', c_video_id = ''B'', c_url = watch_url ''B''\<rparr>,
          \<lparr>c_title = ''Title C'', c_video_id = ''C'', c_url = watch_url ''C''\<rparr>]"
  by (simp add: get_latest_videos_from_channel_def env0_def)

lemma env0_bulk: "bulk_index_channel_videos env0 ''UC'' 10 init = (Inr report_ABC, sA)"
  by (simp add: bulk_index_channel_videos_def env0_latest env0_check env0_fetch_A env0_fetch_C
      report_ABC_def)

text \<open>C4 (as amended). For every candidate list the discovery wrapper returns,
  \<^verbatim>\<open>bulk_index_channel_videos\<close> returns a completed report: every candidate is attempted,
  \<^verbatim>\<open>details\<close> has one entry per candidate in the input order with status
  \<^verbatim>\<open>indexed\<close>, \<^verbatim>\<open>failed\<close> or \<^verbatim>\<open>no_transcript\<close> as the spec's step 2 gives it,
  \<^verbatim>\<open>total_attempted\<close> is the length of the candidate list, \<^verbatim>\<open>indexed\<close> counts the indexed
  entries, and the single counter \<^verbatim>\<open>failed\<close> counts the failed and the no-transcript entries
  together; the report has no separate no-transcript count.\<close>

theorem bulk_index_report:
  assumes "get_latest_videos_from_channel e channel_id max_videos = Inr videos"
  shows "\<exists>rep s'. bulk_index_channel_videos e channel_id max_videos s = (Inr rep, s') \<and>
           status rep = ''completed'' \<and>
           total_attempted rep = length videos \<and>
           details rep = map (ingestion_result e) videos \<and>
           map b_video_id (details rep) = map c_video_id videos \<and>
           (\<forall>d \<in> set (details rep). b_status d \<in> {''indexed'', ''failed'', ''no_transcript''}) \<and>
           indexed rep = count_status ''indexed'' (details rep) \<and>
           failed rep = count_status ''failed'' (details rep)
                          + count_status ''no_transcript'' (details rep) \<and>
           indexed rep + failed rep = total_attempted rep"
proof -
  obtain s' where l: "bulk_loop e videos 0 0 [] s =
     (Inr (0 + count_status ''indexed'' (map (ingestion_result e) videos),
           0 + count_status ''failed'' (map (ingestion_result e) videos)
              + count_status ''no_transcript'' (map (ingestion_result e) videos),
           [] @ map (ingestion_result e) videos), s')"
    using bulk_loop_result [of e videos 0 0 "[]" s] by blast
  let ?rep = "\<lparr>status = ''completed'',
      indexed = count_status ''indexed'' (map (ingestion_result e) videos),
      failed = count_status ''failed'' (map (ingestion_result e) videos)
              + count_status ''no_transcript'' (map (ingestion_result e) videos),
      total_attempted = length videos, details = map (ingestion_result e) videos\<rparr>"
  have b: "bulk_index_channel_videos e channel_id max_videos s = (Inr ?rep, s')"
    using assms l by (simp add: bulk_index_channel_videos_def)
  have ids: "map b_video_id (details ?rep) = map c_video_id videos"
    by (simp add: ingestion_result_id)
  have sts: "\<forall>d \<in> set (details ?rep). b_status d \<in> {''indexed'', ''failed'', ''no_transcript''}"
    using ingestion_result_status by auto
  have tot: "indexed ?rep + failed ?rep = total_attempted ?rep"
    using count_status_total [of e videos] by simp
  show ?thesis
    apply (rule exI [of _ ?rep])
    apply (rule exI [of _ s'])
    using b ids sts tot apply simp
    done
qed

theorem bulk_index_report_witness:
  "get_latest_videos_from_channel env0 ''UC'' 10 =
     Inr [\<lparr>c_title = ''Title A'', c_video_id = ''A'', c_url = watch_url ''A''\<rparr>,
          \<lparr>c_title = ''Title B'', c_video_id = ''B'', c_url = watch_url ''B''\<rparr>,
          \<lparr>c_title = ''Title C'', c_video_id = ''C'', c_url = watch_url ''C''\<rparr>] \<and>
   bulk_index_channel_videos env0 ''UC'' 10 init = (Inr report_ABC, sA) \<and>
   indexed report_ABC = 1 \<and> total_attempted report_ABC = 3 \<and>
   map b_status (details report_ABC) = [''indexed'', ''no_transcript'', ''failed''] \<and>
   failed report_ABC =
     count_status ''failed'' (details report_ABC) + count_status ''no_transcript'' (details report_ABC)"
proof -
  from bulk_index_report [OF env0_latest, of init]
  obtain rep s' where b: "bulk_index_channel_videos env0 ''UC'' 10 init = (Inr rep, s')"
    and f: "failed rep =
      count_status ''failed'' (details rep) + count_status ''no_transcript'' (details rep)"
    by blast
  from b have "rep = report_ABC" using env0_bulk by simp
  with f have c: "failed report_ABC =
      count_status ''failed'' (details report_ABC) + count_status ''no_transcript'' (details report_ABC)"
    by simp
  have d: "indexed report_ABC = 1" "total_attempted report_ABC = 3"
    "map b_status (details report_ABC) = [''indexed'', ''no_transcript'', ''failed'']"
    by (simp_all add: report_ABC_def)
  show ?thesis using env0_latest env0_bulk c d by blast
qed

text \<open>C4 as stated fails on the counts: for the candidates \<open>A\<close> (transcript), \<open>B\<close> (no
  transcript), \<open>C\<close> (fetch fails) the report's \<^verbatim>\<open>failed\<close> is 2 although one entry has status
  \<^verbatim>\<open>failed\<close>; the entry without transcript is counted in \<^verbatim>\<open>failed\<close>, not apart.\<close>

theorem bulk_failed_count_counterexample:
  "fst (bulk_index_channel_videos env0 ''UC'' 10 init) = Inr report_ABC \<and>
   failed report_ABC = 2 \<and>
   count_status ''failed'' (details report_ABC) = 1 \<and>
   count_status ''no_transcript'' (details report_ABC) = 1 \<and>
   failed report_ABC \<noteq> count_status ''failed'' (details report_ABC)"
  by (simp add: env0_bulk) (simp add: report_ABC_def count_status_def)

subsection \<open>Transcript resolution\<close>

lemma manual_found:
  "find (\<lambda>t. \<not> is_generated t \<and> language_code t = ''en'') ts = Some t \<Longrightarrow>
   find_and_fetch (find_manually_created_transcript nf ts [''en'']) = fetch t"
  by (simp add: find_and_fetch_def find_manually_created_transcript_def)

lemma generated_found:
  "find (\<lambda>t. is_generated t \<and> language_code t = ''en'') ts = Some t \<Longrightarrow>
   find_and_fetch (find_generated_transcript nf ts [''en'']) = fetch t"
  by (simp add: find_and_fetch_def find_generated_transcript_def)

lemma manual_unusable:
  "\<not> usable (find (\<lambda>t. \<not> is_generated t \<and> language_code t = ''en'') ts) \<Longrightarrow>
   \<exists>x. find_and_fetch (find_manually_created_transcript nf ts [''en'']) = Inl x"
  by (simp add: usable_def find_and_fetch_def find_manually_created_transcript_def
      split: option.splits sum.splits)

lemma generated_unusable:
  "\<not> usable (find (\<lambda>t. is_generated t \<and> language_code t = ''en'') ts) \<Longrightarrow>
   \<exists>x. find_and_fetch (find_generated_transcript nf ts [''en'']) = Inl x"
  by (simp add: usable_def find_and_fetch_def find_generated_transcript_def
      split: option.splits sum.splits)

lemma default_reply:
  "\<not> falsy video \<Longrightarrow> default_transcript e (the video) = Inr (Inr d) \<Longrightarrow>
   get_video_transcript e video None = Inr (transcript_reply (the video) d)"
  by (simp add: get_video_transcript_def transcript_reply_def Let_def)

lemma default_raise:
  "\<not> falsy video \<Longrightarrow> default_transcript e (the video) = Inl x \<Longrightarrow>
   get_video_transcript e video None = Inl (transcript_error (the video) x)"
  by (simp add: get_video_transcript_def)

lemma default_early:
  "\<not> falsy video \<Longrightarrow> default_transcript e (the video) = Inr (Inl err) \<Longrightarrow>
   get_video_transcript e video None = Inl err"
  by (simp add: get_video_transcript_def)







text \<open>C7. Without a language list, \<^verbatim>\<open>get_video_transcript\<close> replies with the manually
  created English track when it can be fetched; else with the generated English track when
  that can be fetched; else with the first track reported, whatever its language; and when
  no track is reported it returns the error \<^verbatim>\<open>No transcripts available for video ...\<close>.\<close>

theorem default_language_order:
  assumes "\<not> falsy video" and "list_transcripts e (the video) = Inr ts"
  shows "(\<forall>t d. find (\<lambda>t. \<not> is_generated t \<and> language_code t = ''en'') ts = Some t \<longrightarrow>
            fetch t = Inr d \<longrightarrow>
            get_video_transcript e video None = Inr (transcript_reply (the video) d)) \<and>
         (\<forall>t d. \<not> usable (find (\<lambda>t. \<not> is_generated t \<and> language_code t = ''en'') ts) \<longrightarrow>
            find (\<lambda>t. is_generated t \<and> language_code t = ''en'') ts = Some t \<longrightarrow>
            fetch t = Inr d \<longrightarrow>
            get_video_transcript e video None = Inr (transcript_reply (the video) d)) \<and>
         (\<forall>t rest. \<not> usable (find (\<lambda>t. \<not> is_generated t \<and> language_code t = ''en'') ts) \<longrightarrow>
            \<not> usable (find (\<lambda>t. is_generated t \<and> language_code t = ''en'') ts) \<longrightarrow>
            ts = t # rest \<longrightarrow>
            get_video_transcript e video None =
              (case fetch t of
                 Inl x \<Rightarrow> Inl (transcript_error (the video) x)
               | Inr d \<Rightarrow> Inr (transcript_reply (the video) d))) \<and>
         (ts = [] \<longrightarrow>
            get_video_transcript e video None =
              Inl (''No transcripts available for video '' @ the video))"
proof (intro conjI allI impI)
  fix t d
  assume "find (\<lambda>t. \<not> is_generated t \<and> language_code t = ''en'') ts = Some t" "fetch t = Inr d"
  then have "default_transcript e (the video) = Inr (Inr d)"
    using assms(2) manual_found [of ts t "no_transcript_found e (the video) [''en'']"]
    by (simp add: default_transcript_def)
  then show "get_video_transcript e video None = Inr (transcript_reply (the video) d)"
    by (rule default_reply [OF assms(1)])
next
  fix t d
  assume "\<not> usable (find (\<lambda>t. \<not> is_generated t \<and> language_code t = ''en'') ts)"
    and "find (\<lambda>t. is_generated t \<and> language_code t = ''en'') ts = Some t" and "fetch t = Inr d"
  then have "default_transcript e (the video) = Inr (Inr d)"
    using assms(2) manual_unusable [of ts "no_transcript_found e (the video) [''en'']"]
      generated_found [of ts t "no_transcript_found e (the video) [''en'']"]
    by (auto simp: default_transcript_def)
  then show "get_video_transcript e video None = Inr (transcript_reply (the video) d)"
    by (rule default_reply [OF assms(1)])
next
  fix t rest
  assume "\<not> usable (find (\<lambda>t. \<not> is_generated t \<and> language_code t = ''en'') ts)"
    and "\<not> usable (find (\<lambda>t. is_generated t \<and> language_code t = ''en'') ts)"
    and "ts = t # rest"
  then have "default_transcript e (the video) =
      (case fetch t of Inl x \<Rightarrow> Inl x | Inr d \<Rightarrow> Inr (Inr d))"
    using assms(2) manual_unusable [of ts "no_transcript_found e (the video) [''en'']"]
      generated_unusable [of ts "no_transcript_found e (the video) [''en'']"]
    by (auto simp: default_transcript_def)
  then show "get_video_transcript e video None =
      (case fetch t of
         Inl x \<Rightarrow> Inl (transcript_error (the video) x)
       | Inr d \<Rightarrow> Inr (transcript_reply (the video) d))"
    using default_reply [OF assms(1), of e] default_raise [OF assms(1), of e]
    by (cases "fetch t") simp_all
next
  assume "ts = []"
  then have "default_transcript e (the video) =
      Inr (Inl (''No transcripts available for video '' @ the video))"
    using assms(2)
    by (simp add: default_transcript_def find_and_fetch_def
        find_manually_created_transcript_def find_generated_transcript_def)
  then show "get_video_transcript e video None =
      Inl (''No transcripts available for video '' @ the video)"
    by (rule default_early [OF assms(1)])
qed

theorem default_language_order_witness:
  "\<not> falsy (Some ''A'') \<and>
   list_transcripts env1 ''A'' = Inr [en_track False (Inr [''hello'', ''world''])] \<and>
   get_video_transcript env1 (Some ''A'') None = Inr (transcript_reply ''A'' [''hello'', ''world'']) \<and>
   list_transcripts env1 ''D'' = Inr [fr_track, en_track True (Inr [''hi''])] \<and>
   get_video_transcript env1 (Some ''D'') None = Inr (transcript_reply ''D'' [''hi'']) \<and>
   list_transcripts env1 ''E'' = Inr [fr_track] \<and>
   get_video_transcript env1 (Some ''E'') None = Inr (transcript_reply ''E'' [''bonjour'']) \<and>
   list_transcripts env1 ''B'' = Inr [] \<and>
   get_video_transcript env1 (Some ''B'') None = Inl ''No transcripts available for video B''"
proof -
  have f: "\<not> falsy (Some v)" if "v \<noteq> []" for v using that by (simp add: falsy_def)
  have lA: "list_transcripts env1 (the (Some ''A'')) = Inr [en_track False (Inr [''hello'', ''world''])]"
    and lD: "list_transcripts env1 (the (Some ''D'')) = Inr [fr_track, en_track True (Inr [''hi''])]"
    and lE: "list_transcripts env1 (the (Some ''E'')) = Inr [fr_track]"
    and lB: "list_transcripts env1 (the (Some ''B'')) = Inr []"
    by (simp_all add: env1_def env0_def)
  have A: "get_video_transcript env1 (Some ''A'') None = Inr (transcript_reply ''A'' [''hello'', ''world''])"
    using default_language_order [OF f lA] by (simp add: en_track_def)
  have D: "get_video_transcript env1 (Some ''D'') None = Inr (transcript_reply ''D'' [''hi''])"
    using default_language_order [OF f lD] by (simp add: en_track_def fr_track_def usable_def)
  have E: "get_video_transcript env1 (Some ''E'') None = Inr (transcript_reply ''E'' [''bonjour''])"
    using default_language_order [OF f lE] by (simp add: fr_track_def usable_def)
  have B: "get_video_transcript env1 (Some ''B'') None = Inl ''No transcripts available for video B''"
    using default_language_order [OF f lB] by simp
  show ?thesis using f [of "''A''"] lA lD lE lB A D E B by simp
qed

end
